theory Spec2Isabelle
  imports
    Complex_Main
    "HOL-Library.Word"
    "HOL-Library.Multiset"
    "HOL-Library.Char_ord"
    "HOL-Library.List_Lexorder"
    "HOL-Library.Product_Lexorder"
begin

section \<open>docker-stats: the stats aggregation engine\<close>

text \<open>
  A shallow embedding of \<^verbatim>\<open>internal/docker/client.go\<close> (collector, derivation,
  sorter, formatting), of \<^verbatim>\<open>App.setSortField\<close> and \<^verbatim>\<open>App.refresh\<close> of
  \<^verbatim>\<open>internal/ui/app.go\<close>, and of \<^verbatim>\<open>statsModel.Update\<close> of the main package.
  Go strings are byte strings and are modelled as \<^typ>\<open>string\<close>; \<^verbatim>\<open>uint64\<close>,
  \<^verbatim>\<open>int64\<close> and \<^verbatim>\<open>uint32\<close> are words, read signed with \<^const>\<open>sint\<close> where the
  source's type is signed.
\<close>

type_synonym uint64 = "64 word"
type_synonym int64 = "64 word"
type_synonym uint32 = "32 word"

subsection \<open>float64\<close>

text \<open>
  A finite \<^verbatim>\<open>float64\<close> is the rational number it denotes. Every arithmetic
  operation of the source computes the exact result and rounds it to the nearest number
  with a 53-bit significand, ties to the even significand (IEEE 754 binary64,
  round-to-nearest-even). The exponent range (-1022 to 1023) is not modelled: the source
  only divides and multiplies values obtained from 64-bit and 32-bit integers and from
  the constants \<^verbatim>\<open>1e9\<close> and \<^verbatim>\<open>100\<close>, under guards that exclude a zero divisor, so
  its results stay far inside that range and neither overflow, subnormal numbers,
  infinities nor NaN arise.
\<close>

type_synonym float64 = rat

fun bitlen :: "nat \<Rightarrow> nat" where
  "bitlen n = (if n = 0 then 0 else Suc (bitlen (n div 2)))"

declare bitlen.simps [simp del]

definition round_half_even :: "rat \<Rightarrow> int" where
  "round_half_even q =
     (let f = \<lfloor>q\<rfloor>; r = q - of_int f
      in if r < 1 / 2 then f
         else if 1 / 2 < r then f + 1
         else if even f then f else f + 1)"

definition f64_exponent :: "rat \<Rightarrow> int" where
  \<comment> \<open>for \<open>0 < q\<close>: the \<open>e\<close> with \<open>2\<^sup>e \<le> q < 2\<^sup>e\<^sup>+\<^sup>1\<close>\<close>
  "f64_exponent q =
     (let (a, b) = quotient_of q;
          e = int (bitlen (nat a)) - int (bitlen (nat b))
      in if q < 2 powi e then e - 1 else e)"

definition f64_round :: "rat \<Rightarrow> float64" where
  "f64_round q =
     (if q = 0 then 0
      else let a = \<bar>q\<bar>;
               u = 2 powi (f64_exponent a - 52)
           in sgn q * of_int (round_half_even (a / u)) * u)"

definition f64_of_uint64 :: "uint64 \<Rightarrow> float64" where
  "f64_of_uint64 x = f64_round (of_nat (unat x))"

definition f64_of_uint32 :: "uint32 \<Rightarrow> float64" where
  "f64_of_uint32 x = f64_round (of_nat (unat x))"

definition f64_of_int64 :: "int64 \<Rightarrow> float64" where
  "f64_of_int64 x = f64_round (of_int (sint x))"

definition f64_of_len :: "nat \<Rightarrow> float64" where
  \<comment> \<open>\<^verbatim>\<open>float64(len(xs))\<close>\<close>
  "f64_of_len n = f64_round (of_nat n)"

definition f64_div :: "float64 \<Rightarrow> float64 \<Rightarrow> float64" where
  "f64_div a b = f64_round (a / b)"

definition f64_mul :: "float64 \<Rightarrow> float64 \<Rightarrow> float64" where
  "f64_mul a b = f64_round (a * b)"

subsection \<open>The stats payload\<close>

record CPUUsage =
  TotalUsage :: uint64
  PercpuUsage :: "uint64 list"

record CPUStats =
  CPUUsage :: CPUUsage
  SystemUsage :: uint64
  OnlineCPUs :: uint32

record MemoryStats =
  Usage :: uint64
  Limit :: uint64

record NetStats =
  RxBytes :: uint64
  TxBytes :: uint64

record BlkioStatEntry =
  Op :: string
  Value :: uint64

record BlkioStats =
  IoServiceBytesRecursive :: "BlkioStatEntry list"

record PidsStats =
  Current :: uint64

text \<open>
  \<^verbatim>\<open>Networks\<close> is a Go map from interface name to \<^verbatim>\<open>NetStats\<close>. The source only
  ranges over it, in an order the language leaves open; the model holds its entries as a
  list, in the order of that iteration.
\<close>

record StatsJSON =
  CPUStats :: CPUStats
  PreCPUStats :: CPUStats
  MemoryStats :: MemoryStats
  Networks :: "(string \<times> NetStats) list"
  BlkioStats :: BlkioStats
  PidsStats :: PidsStats

definition calculateCPUPercent :: "StatsJSON \<Rightarrow> float64" where
  "calculateCPUPercent stats =
     (let cpuDelta = f64_of_uint64
            (TotalUsage (CPUUsage (CPUStats stats)) - TotalUsage (CPUUsage (PreCPUStats stats)));
          systemDelta = f64_of_uint64
            (SystemUsage (CPUStats stats) - SystemUsage (PreCPUStats stats))
      in if 0 < systemDelta \<and> 0 < cpuDelta then
           let cpuCount = f64_of_uint32 (OnlineCPUs (CPUStats stats));
               cpuCount = (if cpuCount = 0
                           then f64_of_len (length (PercpuUsage (CPUUsage (CPUStats stats))))
                           else cpuCount);
               cpuCount = (if cpuCount = 0 then 1 else cpuCount)
           in f64_mul (f64_mul (f64_div cpuDelta systemDelta) cpuCount) 100
         else 0)"

subsection \<open>The runtime client and the collector\<close>

text \<open>
  The Docker SDK client is outside the repository: it is a parameter, one function per
  call the collector makes. A Go \<^verbatim>\<open>error\<close> is the message it carries; a call returns
  \<open>Inl err\<close> when it fails. \<^verbatim>\<open>Summary\<close> and \<^verbatim>\<open>HostConfig\<close> hold the fields of
  the SDK's \<^verbatim>\<open>container.Summary\<close> and \<^verbatim>\<open>HostConfig\<close> that the source reads. The
  inspect response holds its \<^verbatim>\<open>HostConfig\<close> behind a pointer: a successful
  \<^verbatim>\<open>ContainerInspect\<close> returns \<open>Inr (Some hostConfig)\<close>, or \<open>Inr None\<close> when the
  daemon's answer carries none and the pointer is nil. A stats call that succeeds carries
  a body. The context argument of every call (deadline, cancellation) shows only in
  whether the call fails.
\<close>

type_synonym error = string

record Summary =
  Summary_ID :: string
  Summary_Names :: "string list"
  Summary_Image :: string
  Summary_ImageID :: string
  Summary_Status :: string
  Summary_State :: string
  Summary_Created :: int64
  Summary_SizeRw :: int64

record HostConfig =
  NanoCPUs :: int64
  CPUQuota :: int64
  CPUPeriod :: int64

text \<open>
  What \<^verbatim>\<open>decoder.Decode(&statsJSON)\<close> does with the body of a stats response: it fills
  the payload, or reports \<^verbatim>\<open>io.EOF\<close> on an empty body (the payload keeps its zero
  value), or fails with another error.
\<close>

datatype decoded = Decoded StatsJSON | DecodeEOF | DecodeFailed error

record Client =
  ContainerList :: "bool \<Rightarrow> error + Summary list"
  ImageInspect :: "string \<Rightarrow> error + int64"
  ContainerInspect :: "string \<Rightarrow> error + HostConfig option"
  ContainerStats :: "string \<Rightarrow> error + decoded"

record ContainerStats =
  ID :: string
  Name :: string
  Image :: string
  Status :: string
  State :: string
  CPUPercent :: float64
  CPULimit :: float64
  MemUsage :: uint64
  MemLimit :: uint64
  MemPercent :: float64
  NetRx :: uint64
  NetTx :: uint64
  BlockRead :: uint64
  BlockWrite :: uint64
  PIDs :: uint64
  ImageSize :: int64
  ContainerSize :: int64
  Created :: int64

text \<open>
  A call either returns or panics (a run-time panic is not a returned error). The panics
  the source can raise: a slice bound or an index out of range, and the dereference of a
  nil pointer.
\<close>

datatype panic = SliceBoundsOutOfRange | IndexOutOfRange | NilPointerDereference

datatype 'a outcome = Panic panic | Return (returned: 'a)

definition slice_to :: "string \<Rightarrow> nat \<Rightarrow> string outcome" where
  \<comment> \<open>\<^verbatim>\<open>s[:n]\<close>\<close>
  "slice_to s n = (if length s < n then Panic SliceBoundsOutOfRange else Return (take n s))"

definition StatsJSON_zero :: StatsJSON where
  "StatsJSON_zero =
     \<lparr>CPUStats = \<lparr>CPUUsage = \<lparr>TotalUsage = 0, PercpuUsage = []\<rparr>,
                   SystemUsage = 0, OnlineCPUs = 0\<rparr>,
      PreCPUStats = \<lparr>CPUUsage = \<lparr>TotalUsage = 0, PercpuUsage = []\<rparr>,
                      SystemUsage = 0, OnlineCPUs = 0\<rparr>,
      MemoryStats = \<lparr>Usage = 0, Limit = 0\<rparr>,
      Networks = [],
      BlkioStats = \<lparr>IoServiceBytesRecursive = []\<rparr>,
      PidsStats = \<lparr>Current = 0\<rparr>\<rparr>"

definition trimContainerName :: "string list \<Rightarrow> string" where
  "trimContainerName names =
     (if length names = 0 then []
      else let name = names ! 0
           in if 0 < length name \<and> name ! 0 = CHR ''/'' then drop 1 name else name)"

definition sumNetworks :: "ContainerStats \<Rightarrow> (string \<times> NetStats) list \<Rightarrow> ContainerStats" where
  \<comment> \<open>\<^verbatim>\<open>for _, netStats := range statsJSON.Networks\<close>\<close>
  "sumNetworks stats nets =
     foldl (\<lambda>st (ifname, netStats).
              st\<lparr>NetRx := NetRx st + RxBytes netStats, NetTx := NetTx st + TxBytes netStats\<rparr>)
           stats nets"

definition sumBlkio :: "ContainerStats \<Rightarrow> BlkioStatEntry list \<Rightarrow> ContainerStats" where
  \<comment> \<open>\<^verbatim>\<open>for _, blkStats := range ...IoServiceBytesRecursive { switch blkStats.Op ... }\<close>\<close>
  "sumBlkio stats entries =
     foldl (\<lambda>st blkStats.
              if Op blkStats = ''read'' \<or> Op blkStats = ''Read''
              then st\<lparr>BlockRead := BlockRead st + Value blkStats\<rparr>
              else if Op blkStats = ''write'' \<or> Op blkStats = ''Write''
              then st\<lparr>BlockWrite := BlockWrite st + Value blkStats\<rparr>
              else st)
           stats entries"

definition deriveStats :: "ContainerStats \<Rightarrow> StatsJSON \<Rightarrow> ContainerStats" where
  \<comment> \<open>the tail of \<^verbatim>\<open>getContainerStats\<close>, from "Calculate CPU percentage" to "PIDs"\<close>
  "deriveStats stats statsJSON =
     (let stats = stats\<lparr>CPUPercent := calculateCPUPercent statsJSON\<rparr>;
          stats = stats\<lparr>MemUsage := Usage (MemoryStats statsJSON)\<rparr>;
          stats = stats\<lparr>MemLimit := Limit (MemoryStats statsJSON)\<rparr>;
          stats = (if 0 < MemLimit stats
                   then stats\<lparr>MemPercent :=
                          f64_mul (f64_div (f64_of_uint64 (MemUsage stats))
                                           (f64_of_uint64 (MemLimit stats))) 100\<rparr>
                   else stats);
          stats = sumNetworks stats (Networks statsJSON);
          stats = sumBlkio stats (IoServiceBytesRecursive (BlkioStats statsJSON))
      in stats\<lparr>PIDs := Current (PidsStats statsJSON)\<rparr>)"

definition inspectStats :: "string \<Rightarrow> Client \<Rightarrow> Summary \<Rightarrow> ContainerStats outcome" where
  \<comment> \<open>\<^verbatim>\<open>getContainerStats\<close> from the struct literal to "Skip stats for non-running
      containers", with \<open>shortID\<close> the value of \<^verbatim>\<open>cont.ID[:12]\<close>: the identity fields and
      the two inspect calls. \<^verbatim>\<open>containerInfo.HostConfig.NanoCPUs\<close> dereferences the pointer
      without a nil check.\<close>
  "inspectStats shortID c cont =
     (let stats = \<lparr>ID = shortID,
                  Name = trimContainerName (Summary_Names cont),
                  Image = Summary_Image cont,
                  Status = Summary_Status cont,
                  State = Summary_State cont,
                  CPUPercent = 0, CPULimit = 0, MemUsage = 0, MemLimit = 0, MemPercent = 0,
                  NetRx = 0, NetTx = 0, BlockRead = 0, BlockWrite = 0, PIDs = 0,
                  ImageSize = 0, ContainerSize = 0,
                  Created = Summary_Created cont\<rparr>;
          stats = stats\<lparr>ContainerSize := Summary_SizeRw cont\<rparr>;
          stats = (case ImageInspect c (Summary_ImageID cont) of
                     Inr imageSize \<Rightarrow> stats\<lparr>ImageSize := imageSize\<rparr>
                   | Inl err \<Rightarrow> stats)
      in case ContainerInspect c (Summary_ID cont) of
           Inr containerInfo \<Rightarrow>
             (case containerInfo of
                None \<Rightarrow> Panic NilPointerDereference
              | Some hostConfig \<Rightarrow>
                  if 0 <s NanoCPUs hostConfig
                  then Return (stats\<lparr>CPULimit :=
                         f64_div (f64_of_int64 (NanoCPUs hostConfig)) 1000000000\<rparr>)
                  else if 0 <s CPUQuota hostConfig \<and> 0 <s CPUPeriod hostConfig
                  then Return (stats\<lparr>CPULimit :=
                         f64_div (f64_of_int64 (CPUQuota hostConfig))
                                 (f64_of_int64 (CPUPeriod hostConfig))\<rparr>)
                  else Return stats)
         | Inl err \<Rightarrow> Return stats)"

definition getContainerStats ::
  "Client \<Rightarrow> Summary \<Rightarrow> (ContainerStats \<times> error option) outcome" where
  "getContainerStats c cont =
     (case slice_to (Summary_ID cont) 12 of
        Panic p \<Rightarrow> Panic p
      | Return shortID \<Rightarrow>
          (case inspectStats shortID c cont of
             Panic p \<Rightarrow> Panic p
           | Return stats \<Rightarrow>
               if Summary_State cont \<noteq> ''running'' then Return (stats, None)
               else case ContainerStats c (Summary_ID cont) of
                      Inl err \<Rightarrow> Return (stats, None)
                    | Inr body \<Rightarrow>
                        (case body of
                           DecodeFailed err \<Rightarrow> Return (stats, None)
                         | DecodeEOF \<Rightarrow> Return (deriveStats stats StatsJSON_zero, None)
                         | Decoded statsJSON \<Rightarrow> Return (deriveStats stats statsJSON, None))))"

text \<open>
  \<^verbatim>\<open>GetContainerStats\<close> starts one goroutine per listed container; each sends its
  snapshot to \<^verbatim>\<open>statsChan\<close>, or its error to \<^verbatim>\<open>errChan\<close>, and the results are read
  from \<^verbatim>\<open>statsChan\<close> in the order they were sent. That order is the scheduler's:
  \<open>deliver\<close> takes it as a list of choices, the \<open>k\<close>-th choice picking one of the
  snapshots not yet sent. Every list of choices gives a permutation, and every
  permutation is given by some list. A panic in a goroutine is not recovered: it ends the
  process, and the cycle's outcome is that panic (of several panicking goroutines, the
  model reports the first in list order). The deferred \<^verbatim>\<open>wg.Done\<close> of the panicking
  goroutine still runs, so in the moment before the process exits the call may get past
  \<^verbatim>\<open>wg.Wait\<close> and hand back a set that lacks the panicking container; the process ends
  all the same, and \<open>Return\<close> stands for a cycle in which no goroutine panicked.
\<close>

function deliver :: "nat list \<Rightarrow> 'a list \<Rightarrow> 'a list" where
  "deliver sched [] = []"
| "deliver [] (x # xs) = x # xs"
| "deliver (k # sched) (x # xs) =
     (let i = k mod length (x # xs)
      in (x # xs) ! i # deliver sched (take i (x # xs) @ drop (Suc i) (x # xs)))"
  by pat_completeness auto
termination
  by (relation "measure (\<lambda>(sched, xs). length xs)") (auto simp: Let_def)

fun firstPanic :: "'a outcome list \<Rightarrow> panic option" where
  "firstPanic [] = None"
| "firstPanic (Panic p # rs) = Some p"
| "firstPanic (Return r # rs) = firstPanic rs"

fun statsChan :: "(ContainerStats \<times> error option) outcome list \<Rightarrow> ContainerStats list" where
  "statsChan [] = []"
| "statsChan (Return (stats, None) # rs) = stats # statsChan rs"
| "statsChan (r # rs) = statsChan rs"

definition GetContainerStats ::
  "Client \<Rightarrow> nat list \<Rightarrow> bool \<Rightarrow> (ContainerStats list \<times> error option) outcome" where
  "GetContainerStats c sched showAll =
     (case ContainerList c showAll of
        Inl err \<Rightarrow> Return ([], Some (''failed to list containers: '' @ err))
      | Inr containers \<Rightarrow>
          if length containers = 0 then Return ([], None)
          else let rs = map (getContainerStats c) containers
               in case firstPanic rs of
                    Some p \<Rightarrow> Panic p
                  | None \<Rightarrow> Return (deliver sched (statsChan rs), None))"

subsection \<open>The sorter\<close>

type_synonym SortField = int

definition SortByName :: SortField where "SortByName = 0"
definition SortByCPU :: SortField where "SortByCPU = 1"
definition SortByMemory :: SortField where "SortByMemory = 2"
definition SortByNetIO :: SortField where "SortByNetIO = 3"
definition SortByBlockIO :: SortField where "SortByBlockIO = 4"
definition SortByImageSize :: SortField where "SortByImageSize = 5"

definition less_func :: "SortField \<Rightarrow> bool \<Rightarrow> ContainerStats \<Rightarrow> ContainerStats \<Rightarrow> bool" where
  \<comment> \<open>the closure \<^verbatim>\<open>func(i, j int) bool\<close>, on \<^verbatim>\<open>containers[i]\<close> and \<^verbatim>\<open>containers[j]\<close>\<close>
  "less_func field ascending ci cj =
     (let less =
        (if field = SortByName then Name ci < Name cj
         else if field = SortByCPU then CPUPercent ci < CPUPercent cj
         else if field = SortByMemory then MemPercent ci < MemPercent cj
         else if field = SortByNetIO then NetRx ci + NetTx ci < NetRx cj + NetTx cj
         else if field = SortByBlockIO
           then BlockRead ci + BlockWrite ci < BlockRead cj + BlockWrite cj
         else if field = SortByImageSize then ImageSize ci <s ImageSize cj
         else Name ci < Name cj)
      in if ascending then less else \<not> less)"

text \<open>
  \<^verbatim>\<open>sort.Slice\<close> is the Go standard library's (the repository asks for Go 1.25):
  \<^verbatim>\<open>pdqsort_func(data, 0, n, limit)\<close>, which sorts a range of at most 12 elements
  (\<^verbatim>\<open>maxInsertion\<close>) by \<^verbatim>\<open>insertionSort_func\<close>:
  \<^verbatim>\<open>
  for i := a + 1; i < b; i++ {
      for j := i; j > a && data.Less(j, j-1); j-- { data.Swap(j, j-1) }
  }\<close>
  This is the path modelled. On a longer slice the library partitions first; where the
  comparator orders any two entries of the slice strictly, the sorted arrangement is
  unique and both paths produce it, and where entries tie the model speaks for slices of
  at most 12 entries only.
\<close>

definition maxInsertion :: nat where "maxInsertion = 12"

definition Swap :: "'a list \<Rightarrow> nat \<Rightarrow> nat \<Rightarrow> 'a list" where
  "Swap data i j = data[i := data ! j, j := data ! i]"

function insertionSort_inner ::
  "('a \<Rightarrow> 'a \<Rightarrow> bool) \<Rightarrow> 'a list \<Rightarrow> nat \<Rightarrow> nat \<Rightarrow> 'a list" where
  "insertionSort_inner Less data a j =
     (if a < j \<and> Less (data ! j) (data ! (j - 1))
      then insertionSort_inner Less (Swap data j (j - 1)) a (j - 1)
      else data)"
  by pat_completeness auto
termination
  by (relation "measure (\<lambda>(Less, data, a, j). j)") auto

declare insertionSort_inner.simps [simp del]

function insertionSort_outer ::
  "('a \<Rightarrow> 'a \<Rightarrow> bool) \<Rightarrow> 'a list \<Rightarrow> nat \<Rightarrow> nat \<Rightarrow> nat \<Rightarrow> 'a list" where
  "insertionSort_outer Less data a b i =
     (if i < b
      then insertionSort_outer Less (insertionSort_inner Less data a i) a b (Suc i)
      else data)"
  by pat_completeness auto
termination
  by (relation "measure (\<lambda>(Less, data, a, b, i). b - i)") auto

declare insertionSort_outer.simps [simp del]

definition insertionSort_func :: "('a \<Rightarrow> 'a \<Rightarrow> bool) \<Rightarrow> 'a list \<Rightarrow> nat \<Rightarrow> nat \<Rightarrow> 'a list" where
  "insertionSort_func Less data a b = insertionSort_outer Less data a b (a + 1)"

definition sort_Slice :: "('a \<Rightarrow> 'a \<Rightarrow> bool) \<Rightarrow> 'a list \<Rightarrow> 'a list" where
  "sort_Slice Less x = insertionSort_func Less x 0 (length x)"

definition SortContainers :: "ContainerStats list \<Rightarrow> SortField \<Rightarrow> bool \<Rightarrow> ContainerStats list" where
  "SortContainers containers field ascending = sort_Slice (less_func field ascending) containers"

subsection \<open>Formatting\<close>

function itoa :: "nat \<Rightarrow> string" where
  \<comment> \<open>\<^verbatim>\<open>%d\<close> of a non-negative integer\<close>
  "itoa n = (if n < 10 then [''0123456789'' ! n] else itoa (n div 10) @ [''0123456789'' ! (n mod 10)])"
  by pat_completeness auto
termination
  by (relation "measure (\<lambda>n. n)") auto

declare itoa.simps [simp del]

definition fmt_f1 :: "float64 \<Rightarrow> string" where
  \<comment> \<open>\<^verbatim>\<open>%.1f\<close>: the exact value rounded to one decimal, ties to the even digit\<close>
  "fmt_f1 v =
     (let t = round_half_even (\<bar>v\<bar> * 10)
      in (if v < 0 then ''-'' else []) @ itoa (nat (t div 10)) @ ''.'' @ itoa (nat (t mod 10)))"

function FormatBytes_loop :: "uint64 \<Rightarrow> uint64 \<Rightarrow> nat \<Rightarrow> uint64 \<times> nat" where
  \<comment> \<open>\<^verbatim>\<open>for n := bytes / unit; n >= unit; n /= unit { div *= unit; exp++ }\<close>\<close>
  "FormatBytes_loop n dv ex =
     (if 1024 \<le> n then FormatBytes_loop (n div 1024) (dv * 1024) (ex + 1) else (dv, ex))"
  by pat_completeness auto
termination
proof (relation "measure (\<lambda>(n, dv, ex). unat n)")
  show "wf (measure (\<lambda>(n, dv, ex). unat n))" by simp
next
  fix n dv :: uint64 and ex :: nat
  assume "1024 \<le> n"
  then have "1024 \<le> unat n" by (simp add: word_le_nat_alt)
  then have "unat n div 1024 < unat n" by simp
  then show "((n div 1024, dv * 1024, ex + 1), n, dv, ex) \<in> measure (\<lambda>(n, dv, ex). unat n)"
    by (simp add: unat_div)
qed

declare FormatBytes_loop.simps [simp del]

definition FormatBytes :: "uint64 \<Rightarrow> string outcome" where
  "FormatBytes bytes =
     (if bytes < 1024 then Return (itoa (unat bytes) @ ''B'')
      else let (dv, ex) = FormatBytes_loop (bytes div 1024) 1024 0
           in if length ''KMGTPE'' \<le> ex then Panic IndexOutOfRange
              else Return (fmt_f1 (f64_div (f64_of_uint64 bytes) (f64_of_uint64 dv))
                           @ [''KMGTPE'' ! ex] @ ''iB''))"

definition FormatMemUsage :: "uint64 \<Rightarrow> uint64 \<Rightarrow> string outcome" where
  "FormatMemUsage usage limit =
     (case FormatBytes usage of
        Panic p \<Rightarrow> Panic p
      | Return u \<Rightarrow>
          (case FormatBytes limit of
             Panic p \<Rightarrow> Panic p
           | Return l \<Rightarrow> Return (u @ '' / '' @ l)))"

subsection \<open>Session state of the tview application (\<^verbatim>\<open>internal/ui/app.go\<close>)\<close>

record App =
  App_showAll :: bool
  App_containers :: "ContainerStats list"
  App_sortField :: SortField
  App_sortAsc :: bool
  App_statusBar :: string

definition setSortField :: "App \<Rightarrow> SortField \<Rightarrow> App" where
  "setSortField a field =
     (let a = (if App_sortField a = field
               then a\<lparr>App_sortAsc := \<not> App_sortAsc a\<rparr>
               else a\<lparr>App_sortField := field, App_sortAsc := False\<rparr>)
      in a\<lparr>App_containers := SortContainers (App_containers a) (App_sortField a) (App_sortAsc a)\<rparr>)"

definition refresh :: "Client \<Rightarrow> nat list \<Rightarrow> App \<Rightarrow> App outcome" where
  \<comment> \<open>the container half of \<^verbatim>\<open>refresh\<close>; the info bar, fed by \<^verbatim>\<open>GetDockerInfo\<close> before it,
      and the redrawing of the table from \<^verbatim>\<open>a.containers\<close> are not part of the state\<close>
  "refresh client sched a =
     (case GetContainerStats client sched (App_showAll a) of
        Panic p \<Rightarrow> Panic p
      | Return (containers, Some err) \<Rightarrow> Return (a\<lparr>App_statusBar := ''[red]Error: '' @ err\<rparr>)
      | Return (containers, None) \<Rightarrow>
          Return (a\<lparr>App_containers := SortContainers containers (App_sortField a) (App_sortAsc a)\<rparr>))"

subsection \<open>Session state of the bubbletea model (package \<^verbatim>\<open>main\<close>)\<close>

record DockerInfo =
  ServerVersion :: string
  ContainersTotal :: int
  ContainersRunning :: int
  ContainersPaused :: int
  ContainersStopped :: int
  ImagesTotal :: int
  TotalImageSize :: int64
  MemoryTotal :: int64
  CPUs :: int
  OSType :: string
  Architecture :: string

record statsModel =
  containers :: "ContainerStats list"
  info :: "DockerInfo option"
  sortField :: SortField
  sortAsc :: bool
  showAll :: bool
  width :: int
  height :: int
  scroll :: int
  selected :: int
  err :: "error option"
  quitting :: bool

datatype msg =
    WindowSizeMsg int int
  | KeyMsg string
  | tickMsg
  | containerMsg "ContainerStats list" "DockerInfo option" "error option"

datatype cmd = NoCmd | Quit | FetchContainers | TickAndFetch

definition fetchContainers ::
  "Client \<Rightarrow> nat list \<Rightarrow> bool \<Rightarrow> DockerInfo option \<Rightarrow> msg outcome" where
  \<comment> \<open>\<open>dockerInfo\<close>: what \<^verbatim>\<open>GetDockerInfo\<close> returned, \<open>None\<close> when it failed\<close>
  "fetchContainers client sched all dockerInfo =
     (case GetContainerStats client sched all of
        Panic p \<Rightarrow> Panic p
      | Return (cs, e) \<Rightarrow> Return (containerMsg cs dockerInfo e))"

definition Update_key :: "statsModel \<Rightarrow> string \<Rightarrow> statsModel \<times> cmd" where
  "Update_key m key =
     (if key = ''q'' \<or> key = ''ctrl+c'' then (m\<lparr>quitting := True\<rparr>, Quit)
      else if key = ''c'' then
        (if sortField m = SortByCPU then m\<lparr>sortAsc := \<not> sortAsc m\<rparr>
         else m\<lparr>sortField := SortByCPU, sortAsc := False\<rparr>, NoCmd)
      else if key = ''m'' then
        (if sortField m = SortByMemory then m\<lparr>sortAsc := \<not> sortAsc m\<rparr>
         else m\<lparr>sortField := SortByMemory, sortAsc := False\<rparr>, NoCmd)
      else if key = ''n'' then
        (if sortField m = SortByName then m\<lparr>sortAsc := \<not> sortAsc m\<rparr>
         else m\<lparr>sortField := SortByName, sortAsc := True\<rparr>, NoCmd)
      else if key = ''d'' then
        (if sortField m = SortByBlockIO then m\<lparr>sortAsc := \<not> sortAsc m\<rparr>
         else m\<lparr>sortField := SortByBlockIO, sortAsc := False\<rparr>, NoCmd)
      else if key = ''i'' then
        (if sortField m = SortByImageSize then m\<lparr>sortAsc := \<not> sortAsc m\<rparr>
         else m\<lparr>sortField := SortByImageSize, sortAsc := False\<rparr>, NoCmd)
      else if key = ''up'' \<or> key = ''k'' then
        (if 0 < selected m
         then let m = m\<lparr>selected := selected m - 1\<rparr>
              in if selected m < scroll m then m\<lparr>scroll := selected m\<rparr> else m
         else m, NoCmd)
      else if key = ''down'' \<or> key = ''j'' then
        (if selected m < int (length (containers m)) - 1
         then let m = m\<lparr>selected := selected m + 1\<rparr>;
                  visibleRows = height m - 10;
                  visibleRows = (if visibleRows < 1 then 1 else visibleRows)
              in if scroll m + visibleRows \<le> selected m
                 then m\<lparr>scroll := selected m - visibleRows + 1\<rparr> else m
         else m, NoCmd)
      else if key = ''pgup'' then
        (let m = m\<lparr>selected := selected m - 10\<rparr>;
             m = (if selected m < 0 then m\<lparr>selected := 0\<rparr> else m)
         in m\<lparr>scroll := selected m\<rparr>, NoCmd)
      else if key = ''pgdown'' then
        (let m = m\<lparr>selected := selected m + 10\<rparr>;
             m = (if int (length (containers m)) \<le> selected m
                  then m\<lparr>selected := int (length (containers m)) - 1\<rparr> else m);
             visibleRows = height m - 10
         in if scroll m + visibleRows \<le> selected m
            then m\<lparr>scroll := selected m - visibleRows + 1\<rparr> else m, NoCmd)
      else if key = ''home'' then (m\<lparr>selected := 0, scroll := 0\<rparr>, NoCmd)
      else if key = ''end'' then
        (let m = m\<lparr>selected := int (length (containers m)) - 1\<rparr>;
             visibleRows = height m - 10;
             m = m\<lparr>scroll := selected m - visibleRows + 1\<rparr>
         in if scroll m < 0 then m\<lparr>scroll := 0\<rparr> else m, NoCmd)
      else if key = ''r'' then (m, FetchContainers)
      else (m, NoCmd))"

definition Update_containers ::
  "statsModel \<Rightarrow> ContainerStats list \<Rightarrow> DockerInfo option \<Rightarrow> error option \<Rightarrow> statsModel" where
  \<comment> \<open>\<^verbatim>\<open>case containerMsg:\<close>\<close>
  "Update_containers m cs dockerInfo e =
     (let m = m\<lparr>containers := cs\<rparr>;
          m = m\<lparr>info := dockerInfo\<rparr>;
          m = m\<lparr>err := e\<rparr>;
          m = m\<lparr>containers := SortContainers (containers m) (sortField m) (sortAsc m)\<rparr>;
          m = (if int (length (containers m)) \<le> selected m
               then m\<lparr>selected := int (length (containers m)) - 1\<rparr> else m);
          m = (if selected m < 0 then m\<lparr>selected := 0\<rparr> else m);
          visibleRows = height m - 10;
          visibleRows = (if visibleRows < 1 then 1 else visibleRows);
          maxScroll = int (length (containers m)) - visibleRows;
          maxScroll = (if maxScroll < 0 then 0 else maxScroll);
          m = (if maxScroll < scroll m then m\<lparr>scroll := maxScroll\<rparr> else m)
      in if scroll m < 0 then m\<lparr>scroll := 0\<rparr> else m)"

fun Update :: "statsModel \<Rightarrow> msg \<Rightarrow> statsModel \<times> cmd" where
  "Update m (WindowSizeMsg w h) = (m\<lparr>width := w, height := h\<rparr>, NoCmd)"
| "Update m (KeyMsg key) = Update_key m key"
| "Update m tickMsg = (m, TickAndFetch)"
| "Update m (containerMsg cs dockerInfo e) = (Update_containers m cs dockerInfo e, NoCmd)"

subsection \<open>Terms of the statements and example inputs\<close>

definition onlineCoreCount :: "StatsJSON \<Rightarrow> float64" where
  \<comment> \<open>the core count the claims speak of: the reported count, else the number of per-core
      entries, else 1\<close>
  "onlineCoreCount stats =
     (if OnlineCPUs (CPUStats stats) \<noteq> 0 then f64_of_uint32 (OnlineCPUs (CPUStats stats))
      else if PercpuUsage (CPUUsage (CPUStats stats)) \<noteq> []
        then f64_of_len (length (PercpuUsage (CPUUsage (CPUStats stats))))
      else 1)"

definition payload_system_regressed :: StatsJSON where
  "payload_system_regressed =
     \<lparr>CPUStats = \<lparr>CPUUsage = \<lparr>TotalUsage = 10, PercpuUsage = []\<rparr>,
                   SystemUsage = 5, OnlineCPUs = 1\<rparr>,
      PreCPUStats = \<lparr>CPUUsage = \<lparr>TotalUsage = 5, PercpuUsage = []\<rparr>,
                      SystemUsage = 10, OnlineCPUs = 1\<rparr>,
      MemoryStats = \<lparr>Usage = 0, Limit = 0\<rparr>,
      Networks = [],
      BlkioStats = \<lparr>IoServiceBytesRecursive = []\<rparr>,
      PidsStats = \<lparr>Current = 0\<rparr>\<rparr>"

definition ContainerStats_zero :: ContainerStats where
  \<comment> \<open>the zero value of the struct\<close>
  "ContainerStats_zero =
     \<lparr>ID = [], Name = [], Image = [], Status = [], State = [],
      CPUPercent = 0, CPULimit = 0, MemUsage = 0, MemLimit = 0, MemPercent = 0,
      NetRx = 0, NetTx = 0, BlockRead = 0, BlockWrite = 0, PIDs = 0,
      ImageSize = 0, ContainerSize = 0, Created = 0\<rparr>"

definition payload_READ :: StatsJSON where
  \<comment> \<open>one block I/O entry, tagged \<^verbatim>\<open>READ\<close>, of 5 bytes\<close>
  "payload_READ =
     StatsJSON_zero\<lparr>BlkioStats := \<lparr>IoServiceBytesRecursive = [\<lparr>Op = ''READ'', Value = 5\<rparr>]\<rparr>\<rparr>"

definition app_by_cpu :: App where
  \<comment> \<open>the state \<^verbatim>\<open>NewApp\<close> starts from: sorted by CPU, descending, nothing loaded\<close>
  "app_by_cpu =
     \<lparr>App_showAll = False, App_containers = [], App_sortField = SortByCPU,
      App_sortAsc = False, App_statusBar = []\<rparr>"

definition snapshot_named :: "string \<Rightarrow> ContainerStats" where
  "snapshot_named n = ContainerStats_zero\<lparr>Name := n, State := ''running''\<rparr>"

definition model_three :: statsModel where
  \<comment> \<open>three containers on a terminal of 11 rows, the last one selected, scrolled by one\<close>
  "model_three =
     \<lparr>containers = [snapshot_named ''a'', snapshot_named ''b'', snapshot_named ''c''],
      info = None, sortField = SortByName, sortAsc = True, showAll = False,
      width = 80, height = 11, scroll = 1, selected = 2, err = None, quitting = False\<rparr>"

definition client_down :: Client where
  \<comment> \<open>a daemon that refuses every call\<close>
  "client_down =
     \<lparr>ContainerList = (\<lambda>all. Inl ''connection refused''),
      ImageInspect = (\<lambda>i. Inl ''connection refused''),
      ContainerInspect = (\<lambda>i. Inl ''connection refused''),
      ContainerStats = (\<lambda>i. Inl ''connection refused'')\<rparr>"

text \<open>
  Two entries tie under a field when the field's comparison puts neither before the
  other. A list has no ties when no two of its positions do.
\<close>

definition no_ties :: "SortField \<Rightarrow> ContainerStats list \<Rightarrow> bool" where
  "no_ties field cs =
     (\<forall>i<length cs. \<forall>j<length cs. i \<noteq> j \<longrightarrow>
        less_func field True (cs ! i) (cs ! j) \<or> less_func field True (cs ! j) (cs ! i))"

text \<open>
  The insertion sort, seen from the sorted prefix: \<open>insr\<close> takes the prefix last
  element first and moves the new entry down past every entry it is \<open>Less\<close> than.
\<close>

fun insr :: "('a \<Rightarrow> 'a \<Rightarrow> bool) \<Rightarrow> 'a \<Rightarrow> 'a list \<Rightarrow> 'a list" where
  "insr Less x [] = [x]"
| "insr Less x (y # ys) = (if Less x y then y # insr Less x ys else x # y # ys)"

text \<open>The value each field compares, in one ordered type.\<close>

definition sort_key :: "SortField \<Rightarrow> ContainerStats \<Rightarrow> string \<times> rat" where
  "sort_key field c =
     (if field = SortByCPU then ([], CPUPercent c)
      else if field = SortByMemory then ([], MemPercent c)
      else if field = SortByNetIO then ([], of_nat (unat (NetRx c + NetTx c)))
      else if field = SortByBlockIO then ([], of_nat (unat (BlockRead c + BlockWrite c)))
      else if field = SortByImageSize then ([], of_int (sint (ImageSize c)))
      else (Name c, 0))"

definition idle_pair :: "ContainerStats list" where
  \<comment> \<open>two running containers, both at 0% CPU\<close>
  "idle_pair = [snapshot_named ''a'', snapshot_named ''b'']"

definition test_containers :: "ContainerStats list" where
  \<comment> \<open>the list of \<^verbatim>\<open>TestSortContainers\<close>\<close>
  "test_containers =
     [ContainerStats_zero\<lparr>Name := ''alpha'', CPUPercent := 50, MemPercent := 30\<rparr>,
      ContainerStats_zero\<lparr>Name := ''beta'', CPUPercent := 10, MemPercent := 80\<rparr>,
      ContainerStats_zero\<lparr>Name := ''gamma'', CPUPercent := 90, MemPercent := 10\<rparr>]"



definition cont_web :: Summary where
  "cont_web =
     \<lparr>Summary_ID = ''aaaaaaaaaaaa1234'', Summary_Names = [''/web''], Summary_Image = ''nginx'',
      Summary_ImageID = ''sha256:1'', Summary_Status = ''Up 2 hours'',
      Summary_State = ''running'', Summary_Created = 1700000000, Summary_SizeRw = 4096\<rparr>"

definition cont_db :: Summary where
  "cont_db =
     \<lparr>Summary_ID = ''bbbbbbbbbbbb5678'', Summary_Names = [''/db''], Summary_Image = ''postgres'',
      Summary_ImageID = ''sha256:2'', Summary_Status = ''Up 3 hours'',
      Summary_State = ''running'', Summary_Created = 1700000001, Summary_SizeRw = 0\<rparr>"

definition payload_db :: StatsJSON where
  \<comment> \<open>1 GiB used of 2 GiB, 7 processes\<close>
  "payload_db =
     StatsJSON_zero\<lparr>MemoryStats := \<lparr>Usage = 1073741824, Limit = 2147483648\<rparr>,
                    PidsStats := \<lparr>Current = 7\<rparr>\<rparr>"

definition client_two :: Client where
  \<comment> \<open>two running containers: the stats call fails for \<^verbatim>\<open>web\<close>, both inspect calls fail
      for \<^verbatim>\<open>db\<close>\<close>
  "client_two =
     \<lparr>ContainerList = (\<lambda>all. Inr [cont_web, cont_db]),
      ImageInspect = (\<lambda>i. if i = ''sha256:1'' then Inr 1000 else Inl ''no such image''),
      ContainerInspect = (\<lambda>i. if i = ''aaaaaaaaaaaa1234''
                              then Inr (Some \<lparr>NanoCPUs = 2000000000, CPUQuota = 0,
                                               CPUPeriod = 0\<rparr>)
                              else Inl ''deadline exceeded''),
      ContainerStats = (\<lambda>i. if i = ''bbbbbbbbbbbb5678''
                            then Inr (Decoded payload_db)
                            else Inl ''deadline exceeded'')\<rparr>"

definition cont_short :: Summary where
  "cont_short = cont_web\<lparr>Summary_ID := ''abc''\<rparr>"

definition client_short_id :: Client where
  \<comment> \<open>a daemon that lists one container under a 3-character ID\<close>
  "client_short_id = client_two\<lparr>ContainerList := (\<lambda>all. Inr [cont_short])\<rparr>"

definition client_no_hostconfig :: Client where
  \<comment> \<open>a daemon that lists \<^verbatim>\<open>web\<close> and answers its inspect call without a \<^verbatim>\<open>HostConfig\<close>\<close>
  "client_no_hostconfig =
     client_two\<lparr>ContainerList := (\<lambda>all. Inr [cont_web]), ContainerInspect := (\<lambda>i. Inr None)\<rparr>"

definition stats_web :: ContainerStats where
  \<comment> \<open>what \<^verbatim>\<open>client_two\<close> yields for \<^verbatim>\<open>web\<close>, whose stats call fails\<close>
  "stats_web =
     \<lparr>ID = ''aaaaaaaaaaaa'', Name = ''web'', Image = ''nginx'', Status = ''Up 2 hours'',
      State = ''running'', CPUPercent = 0, CPULimit = 2, MemUsage = 0, MemLimit = 0,
      MemPercent = 0, NetRx = 0, NetTx = 0, BlockRead = 0, BlockWrite = 0, PIDs = 0,
      ImageSize = 1000, ContainerSize = 4096, Created = 1700000000\<rparr>"

definition stats_db :: ContainerStats where
  \<comment> \<open>what \<^verbatim>\<open>client_two\<close> yields for \<^verbatim>\<open>db\<close> before the stats call: both inspect calls
      failed\<close>
  "stats_db =
     \<lparr>ID = ''bbbbbbbbbbbb'', Name = ''db'', Image = ''postgres'', Status = ''Up 3 hours'',
      State = ''running'', CPUPercent = 0, CPULimit = 0, MemUsage = 0, MemLimit = 0,
      MemPercent = 0, NetRx = 0, NetTx = 0, BlockRead = 0, BlockWrite = 0, PIDs = 0,
      ImageSize = 0, ContainerSize = 0, Created = 1700000001\<rparr>"

section \<open>Properties\<close>

subsection \<open>Rounding to float64\<close>

lemma bitlen_0 [simp]: "bitlen 0 = 0" by (simp add: bitlen.simps)

lemma bitlen_bounds: "0 < n \<Longrightarrow> 2 ^ (bitlen n - 1) \<le> n \<and> n < 2 ^ bitlen n"
proof (induction n rule: bitlen.induct)
  case (1 n)
  show ?case
  proof (cases "n div 2 = 0")
    case True
    with 1(2) have "n = 1" by presburger
    then show ?thesis by (simp add: bitlen.simps)
  next
    case False
    then have pos: "0 < n div 2" by simp
    from 1(1)[OF _ pos] "1.prems"
    have ih: "2 ^ (bitlen (n div 2) - 1) \<le> n div 2" "n div 2 < 2 ^ bitlen (n div 2)" by auto
    have bl: "bitlen n = Suc (bitlen (n div 2))" using "1.prems" by (subst bitlen.simps) simp
    have gt: "0 < bitlen (n div 2)" using pos by (subst bitlen.simps) simp
    have "2 ^ (bitlen n - 1) = 2 * 2 ^ (bitlen (n div 2) - 1)"
      using gt bl by (cases "bitlen (n div 2)") auto
    also have "\<dots> \<le> 2 * (n div 2)" using ih(1) by simp
    also have "\<dots> \<le> n" by simp
    finally have a: "2 ^ (bitlen n - 1) \<le> n" .
    have "n < 2 * (n div 2) + 2" by presburger
    also have "\<dots> \<le> 2 * 2 ^ bitlen (n div 2)" using ih(2) by simp
    finally have b: "n < 2 ^ bitlen n" by (simp add: bl)
    from a b show ?thesis by simp
  qed
qed

lemma f64_exponent_bounds:
  assumes "0 < q"
  shows "2 powi (f64_exponent q) \<le> q" and "q < 2 powi (f64_exponent q + 1)"
proof -
  obtain a b where ab: "quotient_of q = (a, b)" by force
  have bpos: "0 < b" using quotient_of_denom_pos[OF ab] .
  have q: "q = of_int a / of_int b" using quotient_of_div[OF ab] .
  have apos: "0 < a" using assms bpos q by (simp add: zero_less_divide_iff)
  define la where "la = bitlen (nat a)"
  define lb where "lb = bitlen (nat b)"
  have A: "2 ^ (la - 1) \<le> nat a" "nat a < 2 ^ la"
    using bitlen_bounds[of "nat a"] apos by (auto simp: la_def)
  have B: "2 ^ (lb - 1) \<le> nat b" "nat b < 2 ^ lb"
    using bitlen_bounds[of "nat b"] bpos by (auto simp: lb_def)
  have la0: "0 < la" using A(2) apos by (cases la) auto
  have lb0: "0 < lb" using B(2) bpos by (cases lb) auto
  have ra: "(2::rat) ^ (la - 1) \<le> of_int a" "of_int a < (2::rat) ^ la"
  proof -
    have "(2::rat) ^ (la - 1) = of_nat (2 ^ (la - 1))" by simp
    also have "\<dots> \<le> of_nat (nat a)" using A(1) by (simp only: of_nat_le_iff)
    finally show "(2::rat) ^ (la - 1) \<le> of_int a" using apos by simp
    have "of_nat (nat a) < (of_nat (2 ^ la) :: rat)" using A(2) by (simp only: of_nat_less_iff)
    then show "of_int a < (2::rat) ^ la" using apos by simp
  qed
  have rb: "(2::rat) ^ (lb - 1) \<le> of_int b" "of_int b < (2::rat) ^ lb"
  proof -
    have "(2::rat) ^ (lb - 1) = of_nat (2 ^ (lb - 1))" by simp
    also have "\<dots> \<le> of_nat (nat b)" using B(1) by (simp only: of_nat_le_iff)
    finally show "(2::rat) ^ (lb - 1) \<le> of_int b" using bpos by simp
    have "of_nat (nat b) < (of_nat (2 ^ lb) :: rat)" using B(2) by (simp only: of_nat_less_iff)
    then show "of_int b < (2::rat) ^ lb" using bpos by simp
  qed
  define e where "e = int la - int lb"
  have p1: "(2::rat) powi int la = 2 ^ la" by simp
  have p2: "(2::rat) powi int lb = 2 ^ lb" by simp
  have p3: "(2::rat) powi (int la - 1) = 2 ^ (la - 1)"
    using la0 by (cases la) simp_all
  have p4: "(2::rat) powi (int lb - 1) = 2 ^ (lb - 1)"
    using lb0 by (cases lb) simp_all
  have bpos': "0 < (of_int b :: rat)" using bpos by simp
  have lo: "2 powi (e - 1) \<le> q"
  proof -
    have "(2::rat) powi (e - 1) = 2 powi (int la - 1) / 2 powi int lb"
      unfolding e_def by (simp add: power_int_diff)
    also have "\<dots> = 2 ^ (la - 1) / 2 ^ lb" by (simp only: p3 p2)
    also have "\<dots> \<le> of_int a / 2 ^ lb" using ra(1) by (simp add: divide_right_mono)
    also have "\<dots> \<le> of_int a / of_int b"
      using rb(2) bpos' apos by (intro divide_left_mono) (auto intro: mult_pos_pos)
    finally show ?thesis by (simp add: q)
  qed
  have hi: "q < 2 powi (e + 1)"
  proof -
    have "q = of_int a / of_int b" by (rule q)
    also have "\<dots> < 2 ^ la / of_int b" using ra(2) bpos' by (simp add: divide_strict_right_mono)
    also have "\<dots> \<le> 2 ^ la / 2 ^ (lb - 1)"
      using rb(1) bpos' by (intro divide_left_mono) (auto intro: mult_pos_pos)
    also have "\<dots> = 2 powi int la / 2 powi (int lb - 1)" by (simp only: p1 p4)
    also have "\<dots> = 2 powi (int la - (int lb - 1))" by (rule power_int_diff [symmetric]) simp
    also have "int la - (int lb - 1) = e + 1" by (simp add: e_def)
    finally show ?thesis .
  qed
  have fe: "f64_exponent q = (if q < 2 powi e then e - 1 else e)"
    by (simp add: f64_exponent_def ab e_def la_def lb_def Let_def)
  show "2 powi (f64_exponent q) \<le> q" using lo by (simp add: fe)
  show "q < 2 powi (f64_exponent q + 1)" using hi by (simp add: fe)
qed

lemma round_half_even_of_int [simp]: "round_half_even (of_int n) = n"
  by (simp add: round_half_even_def)

lemma round_half_even_ge: assumes "of_int n \<le> q" shows "n \<le> round_half_even q"
proof -
  have "n \<le> \<lfloor>q\<rfloor>" using assms by (simp add: le_floor_iff)
  then show ?thesis by (simp add: round_half_even_def Let_def)
qed

lemma f64_round_0 [simp]: "f64_round 0 = 0"
  by (simp add: f64_round_def)

lemma f64_round_pos: assumes "0 < q" shows "0 < f64_round q"
proof -
  define e where "e = f64_exponent q"
  define u :: rat where "u = 2 powi (e - 52)"
  have upos: "0 < u" by (simp add: u_def)
  have "2 powi e \<le> q" using f64_exponent_bounds(1)[OF assms] by (simp add: e_def)
  then have "2 powi e / u \<le> q / u" using upos by (simp add: divide_right_mono)
  moreover have "(2::rat) powi e / u = 2 powi 52"
    unfolding u_def by (simp add: power_int_diff)
  ultimately have "of_int (2 ^ 52) \<le> q / u" by simp
  then have "2 ^ 52 \<le> round_half_even (q / u)" by (rule round_half_even_ge)
  then have "0 < round_half_even (q / u)" by simp
  then have "0 < of_int (round_half_even (q / u)) * u" using upos by simp
  then show ?thesis using assms by (simp add: f64_round_def Let_def e_def u_def)
qed

lemma f64_round_exact:
  assumes "\<bar>m\<bar> < 2 ^ 53"
  shows "f64_round (of_int m * 2 powi k) = of_int m * 2 powi k"
proof (cases "m = 0")
  case True then show ?thesis by simp
next
  case False
  define q :: rat where "q = of_int m * 2 powi k"
  define a where "a = \<bar>q\<bar>"
  have a: "a = of_int \<bar>m\<bar> * 2 powi k" by (simp add: a_def q_def abs_mult)
  have apos: "0 < a" using False by (simp add: a)
  define e where "e = f64_exponent a"
  have "2 powi e \<le> a" using f64_exponent_bounds(1)[OF apos] by (simp add: e_def)
  also have "a < 2 powi 53 * 2 powi k"
  proof -
    have "(of_int \<bar>m\<bar> :: rat) < of_int (2 ^ 53)" using assms by (simp only: of_int_less_iff)
    then show ?thesis by (simp add: a)
  qed
  also have "\<dots> = 2 powi (53 + k)" by (simp add: power_int_add)
  finally have lt: "(2::rat) powi e < 2 powi (53 + k)" .
  have "e < 53 + k"
  proof (rule ccontr)
    assume "\<not> e < 53 + k"
    then have "(2::rat) powi (53 + k) \<le> 2 powi e" by (intro power_int_increasing) auto
    with lt show False by simp
  qed
  define d where "d = nat (k - (e - 52))"
  have d: "k - (e - 52) = int d" using \<open>e < 53 + k\<close> by (simp add: d_def)
  define u :: rat where "u = 2 powi (e - 52)"
  have "(2::rat) powi k / u = 2 powi (k - (e - 52))" by (simp add: u_def power_int_diff)
  then have pk: "(2::rat) powi k / u = 2 ^ d" by (simp add: d)
  have "a / u = of_int \<bar>m\<bar> * (2 powi k / u)" by (simp add: a)
  also have "\<dots> = of_int (\<bar>m\<bar> * 2 ^ d)" by (simp only: pk) simp
  finally have "a / u = of_int (\<bar>m\<bar> * 2 ^ d)" .
  then have r: "round_half_even (a / u) = \<bar>m\<bar> * 2 ^ d" by (simp only: round_half_even_of_int)
  have upos: "0 < u" by (simp add: u_def)
  have "of_int (\<bar>m\<bar> * 2 ^ d) * u = a / u * u"
    using \<open>a / u = of_int (\<bar>m\<bar> * 2 ^ d)\<close> by simp
  also have "\<dots> = a" using upos by simp
  finally have "of_int (\<bar>m\<bar> * 2 ^ d) * u = a" .
  note au = this
  have qne: "q \<noteq> 0" using apos by (simp add: a_def)
  have "f64_round q = sgn q * of_int (round_half_even (a / u)) * u"
    using qne by (simp add: f64_round_def Let_def a_def e_def u_def)
  also have "\<dots> = sgn q * (of_int (\<bar>m\<bar> * 2 ^ d) * u)" by (simp only: r mult.assoc)
  also have "\<dots> = sgn q * \<bar>q\<bar>" by (simp only: au a_def)
  also have "\<dots> = q" by (simp add: sgn_mult_abs)
  finally show ?thesis by (simp only: q_def)
qed

lemma f64_round_of_int: "\<bar>m\<bar> < 2 ^ 53 \<Longrightarrow> f64_round (of_int m) = of_int m"
  using f64_round_exact [of m 0] by simp

lemma f64_round_half: "f64_round (1 / 2) = 1 / 2"
  using f64_round_exact [of 1 "- 1"] by simp

lemma f64_round_numeral [simp]:
  "numeral k < (2 ^ 53 :: int) \<Longrightarrow> f64_round (numeral k) = numeral k"
  using f64_round_of_int [of "numeral k"] by simp

lemma f64_round_1 [simp]: "f64_round 1 = 1"
  using f64_round_of_int [of 1] by simp

lemma f64_of_uint64_pos:
  assumes "x \<noteq> 0"
  shows "0 < f64_of_uint64 x"
proof -
  have "0 < unat x" using assms by (simp add: unat_gt_0)
  then have "(0::rat) < of_nat (unat x)" by (simp only: of_nat_0_less_iff)
  then show ?thesis unfolding f64_of_uint64_def by (rule f64_round_pos)
qed

lemma f64_of_uint64_0 [simp]: "f64_of_uint64 0 = 0"
  by (simp add: f64_of_uint64_def)

lemma f64_of_uint64_pos_iff: "0 < f64_of_uint64 x \<longleftrightarrow> x \<noteq> 0"
  using f64_of_uint64_pos [of x] by (cases "x = 0") auto

lemma f64_div_pos: "0 < a \<Longrightarrow> 0 < b \<Longrightarrow> 0 < f64_div a b"
  unfolding f64_div_def by (rule f64_round_pos) simp

lemma f64_mul_pos: "0 < a \<Longrightarrow> 0 < b \<Longrightarrow> 0 < f64_mul a b"
  unfolding f64_mul_def by (rule f64_round_pos) simp

lemma f64_round_nonneg: "0 \<le> q \<Longrightarrow> 0 \<le> f64_round q"
  using f64_round_pos [of q] by (cases "q = 0") (auto simp: less_le)

subsection \<open>CPU percentage\<close>

lemma f64_of_uint32_pos:
  assumes "x \<noteq> 0"
  shows "0 < f64_of_uint32 x"
proof -
  have "0 < unat x" using assms by (simp add: unat_gt_0)
  then have "(0::rat) < of_nat (unat x)" by (simp only: of_nat_0_less_iff)
  then show ?thesis unfolding f64_of_uint32_def by (rule f64_round_pos)
qed

lemma f64_of_uint32_0 [simp]: "f64_of_uint32 0 = 0"
  by (simp add: f64_of_uint32_def)

lemma f64_of_len_pos: "0 < n \<Longrightarrow> 0 < f64_of_len n"
  unfolding f64_of_len_def by (rule f64_round_pos) simp

lemma f64_of_len_0 [simp]: "f64_of_len 0 = 0"
  by (simp add: f64_of_len_def)

lemma onlineCoreCount_pos: "0 < onlineCoreCount stats"
  by (simp add: onlineCoreCount_def f64_of_uint32_pos f64_of_len_pos)

text \<open>
  On the differences the source computes (in \<^verbatim>\<open>uint64\<close>, so modulo \<open>2\<^sup>6\<^sup>4\<close>) the
  function is the formula when both differ from zero, and zero otherwise.
\<close>

lemma calculateCPUPercent_eq:
  "calculateCPUPercent stats =
     (let cpuDelta = f64_of_uint64 (TotalUsage (CPUUsage (CPUStats stats))
                                     - TotalUsage (CPUUsage (PreCPUStats stats)));
          systemDelta = f64_of_uint64 (SystemUsage (CPUStats stats)
                                        - SystemUsage (PreCPUStats stats))
      in if 0 < cpuDelta \<and> 0 < systemDelta
         then f64_mul (f64_mul (f64_div cpuDelta systemDelta) (onlineCoreCount stats)) 100
         else 0)"
proof -
  have "f64_of_uint32 (OnlineCPUs (CPUStats stats)) = 0 \<longleftrightarrow> OnlineCPUs (CPUStats stats) = 0"
    using f64_of_uint32_pos [of "OnlineCPUs (CPUStats stats)"] by (cases "OnlineCPUs (CPUStats stats) = 0") auto
  moreover have "f64_of_len (length (PercpuUsage (CPUUsage (CPUStats stats)))) = 0
      \<longleftrightarrow> PercpuUsage (CPUUsage (CPUStats stats)) = []"
    using f64_of_len_pos [of "length (PercpuUsage (CPUUsage (CPUStats stats)))"]
    by (cases "PercpuUsage (CPUUsage (CPUStats stats))") auto
  ultimately show ?thesis
    by (auto simp: calculateCPUPercent_def onlineCoreCount_def Let_def)
qed

lemma calculateCPUPercent_pos_iff:
  "0 < calculateCPUPercent stats \<longleftrightarrow>
     TotalUsage (CPUUsage (CPUStats stats)) \<noteq> TotalUsage (CPUUsage (PreCPUStats stats)) \<and>
     SystemUsage (CPUStats stats) \<noteq> SystemUsage (PreCPUStats stats)"
  by (auto simp: calculateCPUPercent_eq Let_def f64_of_uint64_pos_iff
      intro!: f64_mul_pos f64_div_pos onlineCoreCount_pos)

text \<open>
  C1. The claim: the result is \<open>(cpuDelta / sysDelta) * onlineCoreCount * 100\<close> when
  both deltas are positive and exactly 0 in every other case, \<open>sysDelta \<le> 0\<close> included.
  The source subtracts in \<^verbatim>\<open>uint64\<close> before it converts, so a system counter that went
  down (current 5, previous 10: \<open>sysDelta = -5\<close>) gives the difference \<open>2\<^sup>6\<^sup>4 - 5\<close>,
  which passes the guard \<^verbatim>\<open>systemDelta > 0\<close>: with a CPU delta of 5 the result is positive,
  not 0.
\<close>

theorem calculateCPUPercent_system_regressed:
  "SystemUsage (CPUStats payload_system_regressed)
     < SystemUsage (PreCPUStats payload_system_regressed)
   \<and> 0 < calculateCPUPercent payload_system_regressed"
  by (simp add: calculateCPUPercent_pos_iff) (simp add: payload_system_regressed_def)

subsection \<open>The short container ID\<close>

lemma sumNetworks_fields [simp]:
  "ID (sumNetworks stats nets) = ID stats"
  "Name (sumNetworks stats nets) = Name stats"
  "Image (sumNetworks stats nets) = Image stats"
  "Status (sumNetworks stats nets) = Status stats"
  "State (sumNetworks stats nets) = State stats"
  "CPUPercent (sumNetworks stats nets) = CPUPercent stats"
  "CPULimit (sumNetworks stats nets) = CPULimit stats"
  "MemUsage (sumNetworks stats nets) = MemUsage stats"
  "MemLimit (sumNetworks stats nets) = MemLimit stats"
  "MemPercent (sumNetworks stats nets) = MemPercent stats"
  "BlockRead (sumNetworks stats nets) = BlockRead stats"
  "BlockWrite (sumNetworks stats nets) = BlockWrite stats"
  "PIDs (sumNetworks stats nets) = PIDs stats"
  "ImageSize (sumNetworks stats nets) = ImageSize stats"
  "ContainerSize (sumNetworks stats nets) = ContainerSize stats"
  "Created (sumNetworks stats nets) = Created stats"
  unfolding sumNetworks_def
  by (induction nets arbitrary: stats; simp split: prod.splits)+

lemma sumBlkio_fields [simp]:
  "ID (sumBlkio stats entries) = ID stats"
  "Name (sumBlkio stats entries) = Name stats"
  "Image (sumBlkio stats entries) = Image stats"
  "Status (sumBlkio stats entries) = Status stats"
  "State (sumBlkio stats entries) = State stats"
  "CPUPercent (sumBlkio stats entries) = CPUPercent stats"
  "CPULimit (sumBlkio stats entries) = CPULimit stats"
  "MemUsage (sumBlkio stats entries) = MemUsage stats"
  "MemLimit (sumBlkio stats entries) = MemLimit stats"
  "MemPercent (sumBlkio stats entries) = MemPercent stats"
  "NetRx (sumBlkio stats entries) = NetRx stats"
  "NetTx (sumBlkio stats entries) = NetTx stats"
  "PIDs (sumBlkio stats entries) = PIDs stats"
  "ImageSize (sumBlkio stats entries) = ImageSize stats"
  "ContainerSize (sumBlkio stats entries) = ContainerSize stats"
  "Created (sumBlkio stats entries) = Created stats"
  unfolding sumBlkio_def
  by (induction entries arbitrary: stats; simp)+

lemma deriveStats_identity [simp]:
  "ID (deriveStats stats statsJSON) = ID stats"
  "Name (deriveStats stats statsJSON) = Name stats"
  "Image (deriveStats stats statsJSON) = Image stats"
  "Status (deriveStats stats statsJSON) = Status stats"
  "State (deriveStats stats statsJSON) = State stats"
  "CPULimit (deriveStats stats statsJSON) = CPULimit stats"
  "ImageSize (deriveStats stats statsJSON) = ImageSize stats"
  "ContainerSize (deriveStats stats statsJSON) = ContainerSize stats"
  "Created (deriveStats stats statsJSON) = Created stats"
  by (simp_all add: deriveStats_def Let_def)

lemma slice_to_simps:
  "(slice_to s n = Panic p) = (length s < n \<and> p = SliceBoundsOutOfRange)"
  "(slice_to s n = Return t) = (n \<le> length s \<and> t = take n s)"
  by (auto simp: slice_to_def)

lemma inspectStats_Panic_iff:
  "(inspectStats shortID c cont = Panic p)
     = (ContainerInspect c (Summary_ID cont) = Inr None \<and> p = NilPointerDereference)"
  by (auto simp: inspectStats_def Let_def split: sum.splits option.splits)

lemma inspectStats_identity:
  assumes "inspectStats shortID c cont = Return stats"
  shows "ID stats = shortID"
    and "Name stats = trimContainerName (Summary_Names cont)"
    and "Image stats = Summary_Image cont"
    and "Status stats = Summary_Status cont"
    and "State stats = Summary_State cont"
    and "ContainerSize stats = Summary_SizeRw cont"
    and "Created stats = Summary_Created cont"
  using assms
  by (auto simp: inspectStats_def Let_def split: sum.splits option.splits if_splits)

lemma inspectStats_zero:
  assumes "inspectStats shortID c cont = Return stats"
  shows "CPUPercent stats = 0" and "MemUsage stats = 0" and "MemLimit stats = 0"
    and "MemPercent stats = 0" and "NetRx stats = 0" and "NetTx stats = 0"
    and "BlockRead stats = 0" and "BlockWrite stats = 0" and "PIDs stats = 0"
  using assms
  by (auto simp: inspectStats_def Let_def split: sum.splits option.splits if_splits)

lemma getContainerStats_Panic_iff:
  "(getContainerStats c cont = Panic p)
     = (length (Summary_ID cont) < 12 \<and> p = SliceBoundsOutOfRange
        \<or> 12 \<le> length (Summary_ID cont)
            \<and> ContainerInspect c (Summary_ID cont) = Inr None \<and> p = NilPointerDereference)"
proof (cases "length (Summary_ID cont) < 12")
  case True
  then show ?thesis by (auto simp: getContainerStats_def slice_to_def)
next
  case False
  then have sl: "slice_to (Summary_ID cont) 12 = Return (take 12 (Summary_ID cont))"
    by (simp add: slice_to_def)
  show ?thesis
  proof (cases "inspectStats (take 12 (Summary_ID cont)) c cont")
    case (Panic q)
    then have q: "ContainerInspect c (Summary_ID cont) = Inr None" "q = NilPointerDereference"
      by (simp_all add: inspectStats_Panic_iff)
    show ?thesis using False q by (auto simp: getContainerStats_def sl Panic)
  next
    case (Return stats)
    then have "ContainerInspect c (Summary_ID cont) \<noteq> Inr None"
      using inspectStats_Panic_iff [of "take 12 (Summary_ID cont)" c cont NilPointerDereference]
      by auto
    then show ?thesis using False Return
      by (auto simp: getContainerStats_def sl split: sum.splits decoded.splits)
  qed
qed

lemma getContainerStats_Return_ID:
  assumes "getContainerStats c cont = Return (stats, e)"
  shows "12 \<le> length (Summary_ID cont)" and "ID stats = take 12 (Summary_ID cont)"
proof -
  from assms obtain shortID where sl: "slice_to (Summary_ID cont) 12 = Return shortID"
    by (cases "slice_to (Summary_ID cont) 12") (auto simp: getContainerStats_def)
  then show len: "12 \<le> length (Summary_ID cont)" by (simp add: slice_to_simps)
  from sl have sid: "shortID = take 12 (Summary_ID cont)" by (simp add: slice_to_simps)
  from assms sl obtain stats0 where i: "inspectStats shortID c cont = Return stats0"
    by (cases "inspectStats shortID c cont") (auto simp: getContainerStats_def)
  from assms sl i have "ID stats = ID stats0"
    by (auto simp: getContainerStats_def split: if_splits sum.splits decoded.splits)
  with inspectStats_identity(1) [OF i] sid show "ID stats = take 12 (Summary_ID cont)" by simp
qed

lemma f64_limit_2: "f64_div (f64_of_int64 2000000000) 1000000000 = 2"
  by (simp add: f64_div_def f64_of_int64_def)

lemma inspectStats_web: "inspectStats ''aaaaaaaaaaaa'' client_two cont_web = Return stats_web"
  by (simp add: inspectStats_def Let_def client_two_def cont_web_def stats_web_def
      trimContainerName_def f64_limit_2 word_sless_alt)

lemma getContainerStats_web: "getContainerStats client_two cont_web = Return (stats_web, None)"
proof -
  have "slice_to (Summary_ID cont_web) 12 = Return ''aaaaaaaaaaaa''"
    by (simp add: slice_to_def cont_web_def)
  moreover have "ContainerStats client_two (Summary_ID cont_web) = Inl ''deadline exceeded''"
    by (simp add: client_two_def cont_web_def)
  moreover have "Summary_State cont_web = ''running''" by (simp add: cont_web_def)
  ultimately show ?thesis by (simp add: getContainerStats_def inspectStats_web)
qed

text \<open>
  C10. The short ID is the slice \<^verbatim>\<open>cont.ID[:12]\<close>. The slice is in range exactly when
  the listed ID has at least 12 characters, and is then its first 12 characters; on a
  shorter ID it is out of range, and that is the one case in which
  \<^verbatim>\<open>getContainerStats\<close> panics on a slice bound. Whenever \<^verbatim>\<open>getContainerStats\<close>
  returns, the ID had its 12 characters and the snapshot's ID is the first 12.
\<close>

theorem getContainerStats_short_id:
  "(slice_to (Summary_ID cont) 12 = Panic SliceBoundsOutOfRange) = (length (Summary_ID cont) < 12)
   \<and> (slice_to (Summary_ID cont) 12 = Return (take 12 (Summary_ID cont)))
       = (12 \<le> length (Summary_ID cont))
   \<and> (getContainerStats c cont = Panic SliceBoundsOutOfRange) = (length (Summary_ID cont) < 12)
   \<and> (getContainerStats c cont = Return (stats, e) \<longrightarrow>
        12 \<le> length (Summary_ID cont) \<and> ID stats = take 12 (Summary_ID cont))"
  using getContainerStats_Return_ID [of c cont stats e]
  by (auto simp: slice_to_simps getContainerStats_Panic_iff)

theorem getContainerStats_short_id_witness:
  "getContainerStats client_two cont_web = Return (stats_web, None)
   \<and> 12 \<le> length (Summary_ID cont_web)
   \<and> ID stats_web = take 12 (Summary_ID cont_web)
   \<and> ID stats_web = ''aaaaaaaaaaaa''"
proof -
  have h: "getContainerStats client_two cont_web = Return (stats_web, None)"
    by (rule getContainerStats_web)
  from getContainerStats_short_id [of cont_web client_two stats_web None] h
  have "12 \<le> length (Summary_ID cont_web) \<and> ID stats_web = take 12 (Summary_ID cont_web)"
    by blast
  with h show ?thesis by (simp add: stats_web_def)
qed

subsection \<open>Block I/O, network and memory derivation\<close>

lemma sumBlkio_BlockRead:
  "BlockRead (sumBlkio stats entries) =
     BlockRead stats
       + sum_list (map Value (filter (\<lambda>e. Op e = ''read'' \<or> Op e = ''Read'') entries))"
  unfolding sumBlkio_def
  by (induction entries arbitrary: stats) (simp_all add: add.assoc)

lemma sumBlkio_BlockWrite:
  "BlockWrite (sumBlkio stats entries) =
     BlockWrite stats
       + sum_list (map Value (filter (\<lambda>e. Op e = ''write'' \<or> Op e = ''Write'') entries))"
  unfolding sumBlkio_def
  by (induction entries arbitrary: stats) (simp_all add: add.assoc)

lemma sumNetworks_NetRx:
  "NetRx (sumNetworks stats nets) = NetRx stats + sum_list (map (RxBytes \<circ> snd) nets)"
  unfolding sumNetworks_def
  by (induction nets arbitrary: stats) (simp_all add: add.assoc split: prod.splits)

lemma sumNetworks_NetTx:
  "NetTx (sumNetworks stats nets) = NetTx stats + sum_list (map (TxBytes \<circ> snd) nets)"
  unfolding sumNetworks_def
  by (induction nets arbitrary: stats) (simp_all add: add.assoc split: prod.splits)

text \<open>The order in which the map of interfaces is ranged over does not matter.\<close>

lemma sumNetworks_order:
  assumes "mset nets = mset nets'"
  shows "NetRx (sumNetworks stats nets) = NetRx (sumNetworks stats nets')"
    and "NetTx (sumNetworks stats nets) = NetTx (sumNetworks stats nets')"
proof -
  have "mset (map (RxBytes \<circ> snd) nets) = mset (map (RxBytes \<circ> snd) nets')"
    and "mset (map (TxBytes \<circ> snd) nets) = mset (map (TxBytes \<circ> snd) nets')"
    using assms by (metis mset_map)+
  then have "sum_list (map (RxBytes \<circ> snd) nets) = sum_list (map (RxBytes \<circ> snd) nets')"
    and "sum_list (map (TxBytes \<circ> snd) nets) = sum_list (map (TxBytes \<circ> snd) nets')"
    by (metis sum_mset_sum_list)+
  then show "NetRx (sumNetworks stats nets) = NetRx (sumNetworks stats nets')"
    and "NetTx (sumNetworks stats nets) = NetTx (sumNetworks stats nets')"
    by (simp_all add: sumNetworks_NetRx sumNetworks_NetTx)
qed

lemma getContainerStats_live:
  assumes "inspectStats (take 12 (Summary_ID cont)) c cont = Return stats"
    and "12 \<le> length (Summary_ID cont)" and "Summary_State cont = ''running''"
    and "ContainerStats c (Summary_ID cont) = Inr (Decoded statsJSON)"
  shows "getContainerStats c cont = Return (deriveStats stats statsJSON, None)"
  using assms by (simp add: getContainerStats_def slice_to_def)

text \<open>
  C5 as the claim states it: an entry tagged \<^verbatim>\<open>READ\<close> would add its 5 bytes to the read
  bucket. The source's \<^verbatim>\<open>switch\<close> lists \<^verbatim>\<open>"read", "Read"\<close> and \<^verbatim>\<open>"write", "Write"\<close>
  only, so the entry is counted in neither bucket.
\<close>

theorem blkio_READ_not_summed:
  "IoServiceBytesRecursive (BlkioStats payload_READ) = [\<lparr>Op = ''READ'', Value = 5\<rparr>]
   \<and> BlockRead (deriveStats ContainerStats_zero payload_READ) = 0
   \<and> BlockWrite (deriveStats ContainerStats_zero payload_READ) = 0"
  by (simp add: payload_READ_def StatsJSON_zero_def ContainerStats_zero_def deriveStats_def
      sumBlkio_def sumNetworks_def Let_def)

text \<open>
  C5, amended. For every payload the derivation adds to the read bucket the values of
  the entries tagged exactly \<^verbatim>\<open>read\<close> or \<^verbatim>\<open>Read\<close>, to the write bucket those tagged
  exactly \<^verbatim>\<open>write\<close> or \<^verbatim>\<open>Write\<close>, and nothing else (any other tag, other casings
  included, is ignored); the network counters are the sums of the received and of the
  transmitted bytes over all interfaces. Sums are in \<^verbatim>\<open>uint64\<close>. In
  \<^verbatim>\<open>getContainerStats\<close> the four counters start at 0.
\<close>

theorem io_derivation:
  "BlockRead (deriveStats stats p) =
     BlockRead stats + sum_list (map Value
       (filter (\<lambda>e. Op e = ''read'' \<or> Op e = ''Read'') (IoServiceBytesRecursive (BlkioStats p))))
   \<and> BlockWrite (deriveStats stats p) =
     BlockWrite stats + sum_list (map Value
       (filter (\<lambda>e. Op e = ''write'' \<or> Op e = ''Write'') (IoServiceBytesRecursive (BlkioStats p))))
   \<and> NetRx (deriveStats stats p) = NetRx stats + sum_list (map (RxBytes \<circ> snd) (Networks p))
   \<and> NetTx (deriveStats stats p) = NetTx stats + sum_list (map (TxBytes \<circ> snd) (Networks p))"
  by (simp add: deriveStats_def Let_def sumBlkio_BlockRead sumBlkio_BlockWrite
      sumNetworks_NetRx sumNetworks_NetTx)

lemma round_half_even_numeral [simp]: "round_half_even (numeral k) = numeral k"
  using round_half_even_of_int [of "numeral k"] by simp

lemma FormatBytes_1GiB: "FormatBytes 1073741824 = Return ''1.0GiB''"
  by (simp add: FormatBytes_def FormatBytes_loop.simps f64_div_def f64_of_uint64_def
      fmt_f1_def itoa.simps word_le_nat_alt)

lemma FormatBytes_2GiB: "FormatBytes 2147483648 = Return ''2.0GiB''"
  by (simp add: FormatBytes_def FormatBytes_loop.simps f64_div_def f64_of_uint64_def
      fmt_f1_def itoa.simps)

lemma inspectStats_db: "inspectStats ''bbbbbbbbbbbb'' client_two cont_db = Return stats_db"
  by (simp add: inspectStats_def Let_def client_two_def cont_db_def stats_db_def
      trimContainerName_def)

lemma getContainerStats_db:
  "getContainerStats client_two cont_db = Return (deriveStats stats_db payload_db, None)"
proof -
  have "inspectStats (take 12 (Summary_ID cont_db)) client_two cont_db = Return stats_db"
    using inspectStats_db by (simp add: cont_db_def)
  moreover have "12 \<le> length (Summary_ID cont_db)" and "Summary_State cont_db = ''running''"
    and "ContainerStats client_two (Summary_ID cont_db) = Inr (Decoded payload_db)"
    by (simp_all add: cont_db_def client_two_def)
  ultimately show ?thesis by (rule getContainerStats_live)
qed

lemma getContainerStats_live_iff:
  assumes "getContainerStats c cont = Return (result, e)"
    and "Summary_State cont = ''running''"
    and "ContainerStats c (Summary_ID cont) = Inr (Decoded p)"
  shows "\<exists>stats. inspectStats (take 12 (Summary_ID cont)) c cont = Return stats
                \<and> result = deriveStats stats p"
proof -
  from assms(1) have sl: "slice_to (Summary_ID cont) 12 = Return (take 12 (Summary_ID cont))"
    by (cases "slice_to (Summary_ID cont) 12") (auto simp: getContainerStats_def slice_to_simps)
  from assms(1) sl obtain stats
    where i: "inspectStats (take 12 (Summary_ID cont)) c cont = Return stats"
    by (cases "inspectStats (take 12 (Summary_ID cont)) c cont")
      (auto simp: getContainerStats_def)
  from assms sl i have "result = deriveStats stats p" by (simp add: getContainerStats_def)
  with i show ?thesis by blast
qed

text \<open>
  C6. For every usage and limit the derived memory percentage is
  \<^verbatim>\<open>float64(usage) / float64(limit) * 100\<close> when the limit is positive and exactly 0 when
  it is 0 (the division is not reached, and the field keeps the 0 of the struct literal);
  usage 1073741824 with limit 2147483648 gives 50, and \<^verbatim>\<open>FormatMemUsage\<close> gives
  \<^verbatim>\<open>1.0GiB / 2.0GiB\<close>. This holds of the struct \<^verbatim>\<open>getContainerStats\<close> holds when it
  reaches the derivation, and so of the snapshot it returns for a running container whose
  payload decoded.
\<close>

theorem memory_percent:
  "(inspectStats shortID c cont = Return stats \<longrightarrow>
      MemPercent (deriveStats stats p) =
        (if 0 < Limit (MemoryStats p)
         then f64_mul (f64_div (f64_of_uint64 (Usage (MemoryStats p)))
                               (f64_of_uint64 (Limit (MemoryStats p)))) 100
         else 0)
      \<and> MemPercent (deriveStats stats
            (p\<lparr>MemoryStats := \<lparr>Usage = 1073741824, Limit = 2147483648\<rparr>\<rparr>)) = 50)
   \<and> (getContainerStats c cont = Return (result, e) \<and> Summary_State cont = ''running''
        \<and> ContainerStats c (Summary_ID cont) = Inr (Decoded p) \<longrightarrow>
      MemPercent result =
        (if 0 < Limit (MemoryStats p)
         then f64_mul (f64_div (f64_of_uint64 (Usage (MemoryStats p)))
                               (f64_of_uint64 (Limit (MemoryStats p)))) 100
         else 0))
   \<and> f64_mul (f64_div (f64_of_uint64 1073741824) (f64_of_uint64 2147483648)) 100 = 50
   \<and> FormatMemUsage 1073741824 2147483648 = Return ''1.0GiB / 2.0GiB''"
proof -
  have v: "f64_mul (f64_div (f64_of_uint64 1073741824) (f64_of_uint64 2147483648)) 100 = 50"
    by (simp add: f64_mul_def f64_div_def f64_of_uint64_def f64_round_half)
  have d: "MemPercent (deriveStats s q) =
        (if 0 < Limit (MemoryStats q)
         then f64_mul (f64_div (f64_of_uint64 (Usage (MemoryStats q)))
                               (f64_of_uint64 (Limit (MemoryStats q)))) 100
         else 0)"
    if "inspectStats sid c cont = Return s" for s q sid
    using inspectStats_zero(4) [OF that] by (simp add: deriveStats_def Let_def)
  have live: "MemPercent result =
        (if 0 < Limit (MemoryStats p)
         then f64_mul (f64_div (f64_of_uint64 (Usage (MemoryStats p)))
                               (f64_of_uint64 (Limit (MemoryStats p)))) 100
         else 0)"
    if "getContainerStats c cont = Return (result, e)" and "Summary_State cont = ''running''"
      and "ContainerStats c (Summary_ID cont) = Inr (Decoded p)"
    using getContainerStats_live_iff [OF that] d by blast
  have f: "FormatMemUsage 1073741824 2147483648 = Return ''1.0GiB / 2.0GiB''"
    by (simp add: FormatMemUsage_def FormatBytes_1GiB FormatBytes_2GiB)
  have "MemPercent (deriveStats stats
            (p\<lparr>MemoryStats := \<lparr>Usage = 1073741824, Limit = 2147483648\<rparr>\<rparr>)) = 50"
    if "inspectStats shortID c cont = Return stats"
    using d [OF that, of "p\<lparr>MemoryStats := \<lparr>Usage = 1073741824, Limit = 2147483648\<rparr>\<rparr>"] v
    by simp
  with d [of shortID stats p] live v f show ?thesis by blast
qed

theorem memory_percent_witness:
  "inspectStats ''bbbbbbbbbbbb'' client_two cont_db = Return stats_db
   \<and> getContainerStats client_two cont_db = Return (deriveStats stats_db payload_db, None)
   \<and> Summary_State cont_db = ''running''
   \<and> ContainerStats client_two (Summary_ID cont_db) = Inr (Decoded payload_db)
   \<and> Usage (MemoryStats payload_db) = 1073741824 \<and> Limit (MemoryStats payload_db) = 2147483648
   \<and> MemPercent (deriveStats stats_db payload_db) = 50
   \<and> MemPercent (deriveStats stats_db StatsJSON_zero) = 0
   \<and> FormatMemUsage 1073741824 2147483648 = Return ''1.0GiB / 2.0GiB''"
proof -
  have h1: "inspectStats ''bbbbbbbbbbbb'' client_two cont_db = Return stats_db"
    by (rule inspectStats_db)
  have h2: "getContainerStats client_two cont_db = Return (deriveStats stats_db payload_db, None)"
    by (rule getContainerStats_db)
  have h3: "Summary_State cont_db = ''running''"
    and h4: "ContainerStats client_two (Summary_ID cont_db) = Inr (Decoded payload_db)"
    by (simp_all add: cont_db_def client_two_def)
  have m: "Usage (MemoryStats payload_db) = 1073741824"
    "Limit (MemoryStats payload_db) = 2147483648" "Limit (MemoryStats StatsJSON_zero) = 0"
    by (simp_all add: payload_db_def StatsJSON_zero_def)
  from memory_percent [of "''bbbbbbbbbbbb''" client_two cont_db stats_db payload_db
      "deriveStats stats_db payload_db" None] h1 h2 h3 h4
  have a: "MemPercent (deriveStats stats_db payload_db) =
      (if 0 < Limit (MemoryStats payload_db)
       then f64_mul (f64_div (f64_of_uint64 (Usage (MemoryStats payload_db)))
                             (f64_of_uint64 (Limit (MemoryStats payload_db)))) 100
       else 0)"
    and v: "f64_mul (f64_div (f64_of_uint64 1073741824) (f64_of_uint64 2147483648)) 100 = 50"
    and f: "FormatMemUsage 1073741824 2147483648 = Return ''1.0GiB / 2.0GiB''"
    by blast+
  from memory_percent [of "''bbbbbbbbbbbb''" client_two cont_db stats_db StatsJSON_zero] h1
  have b: "MemPercent (deriveStats stats_db StatsJSON_zero) =
      (if 0 < Limit (MemoryStats StatsJSON_zero)
       then f64_mul (f64_div (f64_of_uint64 (Usage (MemoryStats StatsJSON_zero)))
                             (f64_of_uint64 (Limit (MemoryStats StatsJSON_zero)))) 100
       else 0)"
    by blast
  from a v have "MemPercent (deriveStats stats_db payload_db) = 50" by (simp add: m)
  moreover from b have "MemPercent (deriveStats stats_db StatsJSON_zero) = 0" by (simp add: m)
  ultimately show ?thesis using h1 h2 h3 h4 m f by simp
qed

subsection \<open>Sort commands\<close>

text \<open>
  The bubbletea model does what the claim says: the key of the active field flips the
  direction, the key of another field selects it with its default direction, ascending
  for Name and descending for CPU, Memory, BlockIO and ImageSize.
\<close>

lemma Update_sort_keys:
  "Update m (KeyMsg ''c'') =
     (if sortField m = SortByCPU then m\<lparr>sortAsc := \<not> sortAsc m\<rparr>
      else m\<lparr>sortField := SortByCPU, sortAsc := False\<rparr>, NoCmd)"
  "Update m (KeyMsg ''m'') =
     (if sortField m = SortByMemory then m\<lparr>sortAsc := \<not> sortAsc m\<rparr>
      else m\<lparr>sortField := SortByMemory, sortAsc := False\<rparr>, NoCmd)"
  "Update m (KeyMsg ''n'') =
     (if sortField m = SortByName then m\<lparr>sortAsc := \<not> sortAsc m\<rparr>
      else m\<lparr>sortField := SortByName, sortAsc := True\<rparr>, NoCmd)"
  "Update m (KeyMsg ''d'') =
     (if sortField m = SortByBlockIO then m\<lparr>sortAsc := \<not> sortAsc m\<rparr>
      else m\<lparr>sortField := SortByBlockIO, sortAsc := False\<rparr>, NoCmd)"
  "Update m (KeyMsg ''i'') =
     (if sortField m = SortByImageSize then m\<lparr>sortAsc := \<not> sortAsc m\<rparr>
      else m\<lparr>sortField := SortByImageSize, sortAsc := False\<rparr>, NoCmd)"
  by (simp_all add: Update_key_def)

lemma setSortField_direction:
  "App_sortField (setSortField a field) = field"
  "App_sortAsc (setSortField a field) = (App_sortField a = field \<and> \<not> App_sortAsc a)"
  by (simp_all add: setSortField_def Let_def)

text \<open>
  C4. The claim: a sort command for a field other than the active one resets the
  direction to the field's default, ascending for Name. \<^verbatim>\<open>App.setSortField\<close> resets it
  to descending whatever the field: from the initial state (CPU, descending) the command
  for Name leaves the list sorted by Name, descending.
\<close>

theorem setSortField_name_descending:
  "App_sortField app_by_cpu = SortByCPU
   \<and> App_sortField (setSortField app_by_cpu SortByName) = SortByName
   \<and> App_sortAsc (setSortField app_by_cpu SortByName) = False"
  by (simp add: setSortField_direction) (simp add: app_by_cpu_def SortByCPU_def SortByName_def)

subsection \<open>A failed list call\<close>

lemma GetContainerStats_list_failed:
  "ContainerList c all = Inl e \<Longrightarrow>
   GetContainerStats c sched all = Return ([], Some (''failed to list containers: '' @ e))"
  by (simp add: GetContainerStats_def)

lemma sort_Slice_Nil [simp]: "sort_Slice Less [] = []"
  by (simp add: sort_Slice_def insertionSort_func_def insertionSort_outer.simps)

lemma SortContainers_Nil [simp]: "SortContainers [] field ascending = []"
  by (simp add: SortContainers_def)

text \<open>
  The tview application keeps what it shows when the list call fails: only the status bar
  changes.
\<close>

lemma refresh_list_failed:
  "ContainerList c (App_showAll a) = Inl e \<Longrightarrow>
   refresh c sched a = Return (a\<lparr>App_statusBar := ''[red]Error: failed to list containers: '' @ e\<rparr>)"
  by (simp add: refresh_def GetContainerStats_list_failed)

text \<open>The bubbletea model does not: whatever it held, the failed cycle empties it.\<close>

lemma Update_list_failed:
  "containers (fst (Update m (containerMsg [] i (Some e)))) = []"
  "selected (fst (Update m (containerMsg [] i (Some e)))) = 0"
  "scroll (fst (Update m (containerMsg [] i (Some e)))) = 0"
  by (simp_all add: Update_containers_def Let_def)

text \<open>
  C2. The claim: when the list call fails, the snapshot set and the view state are left
  as they were and only an error indicator is set. \<^verbatim>\<open>fetchContainers\<close> turns the failure
  into a \<^verbatim>\<open>containerMsg\<close> with no containers, and \<^verbatim>\<open>statsModel.Update\<close> assigns
  \<^verbatim>\<open>msg.containers\<close> before it looks at \<^verbatim>\<open>msg.err\<close>: a model holding three containers,
  the third selected, scrolled by one, ends with none, selection 0 and scroll 0.
\<close>

theorem Update_list_failed_clears:
  "fetchContainers client_down [] False None
     = Return (containerMsg [] None (Some ''failed to list containers: connection refused''))
   \<and> length (containers model_three) = 3 \<and> selected model_three = 2 \<and> scroll model_three = 1
   \<and> Update model_three
        (containerMsg [] None (Some ''failed to list containers: connection refused''))
     = (model_three\<lparr>containers := [], selected := 0, scroll := 0,
          err := Some ''failed to list containers: connection refused''\<rparr>, NoCmd)"
  by (simp add: fetchContainers_def GetContainerStats_def client_down_def model_three_def
      Update_containers_def Let_def)

subsection \<open>The insertion sort\<close>

lemma insertionSort_inner_eq:
  "insertionSort_inner Less (rev r @ x # zs) 0 (length r) = rev (insr Less x r) @ zs"
proof (induction r arbitrary: zs)
  case Nil
  show ?case by (simp add: insertionSort_inner.simps)
next
  case (Cons y r)
  have nj: "(rev r @ y # x # zs) ! Suc (length r) = x"
    by (simp add: nth_append)
  have nj1: "(rev r @ y # x # zs) ! length r = y"
    by (simp add: nth_append)
  have sw: "Swap (rev r @ y # x # zs) (Suc (length r)) (length r) = rev r @ x # y # zs"
    by (simp add: Swap_def nj nj1 list_update_append)
  show ?case
  proof (cases "Less x y")
    case True
    have "insertionSort_inner Less (rev (y # r) @ x # zs) 0 (length (y # r))
        = insertionSort_inner Less (rev r @ x # y # zs) 0 (length r)"
      using True by (subst insertionSort_inner.simps) (simp add: nj nj1 sw)
    also have "\<dots> = rev (insr Less x r) @ y # zs" by (rule Cons.IH)
    finally show ?thesis using True by simp
  next
    case False
    then show ?thesis
      by (subst insertionSort_inner.simps) (simp add: nj nj1)
  qed
qed

lemma length_insr [simp]: "length (insr Less x r) = Suc (length r)"
  by (induction r) simp_all

lemma insertionSort_outer_eq:
  "insertionSort_outer Less (rev r @ zs) 0 (length r + length zs) (length r)
     = rev (foldl (\<lambda>acc x. insr Less x acc) r zs)"
proof (induction zs arbitrary: r)
  case Nil
  show ?case by (simp add: insertionSort_outer.simps)
next
  case (Cons x zs)
  have "insertionSort_outer Less (rev r @ x # zs) 0 (length r + length (x # zs)) (length r)
      = insertionSort_outer Less (rev (insr Less x r) @ zs) 0
          (length (insr Less x r) + length zs) (length (insr Less x r))"
    by (subst insertionSort_outer.simps) (simp add: insertionSort_inner_eq)
  also have "\<dots> = rev (foldl (\<lambda>acc x. insr Less x acc) (insr Less x r) zs)"
    by (rule Cons.IH)
  finally show ?case by simp
qed

lemma sort_Slice_eq: "sort_Slice Less xs = rev (foldl (\<lambda>acc x. insr Less x acc) [] xs)"
proof (cases xs)
  case Nil
  then show ?thesis by simp
next
  case (Cons x zs)
  have "sort_Slice Less (x # zs)
      = insertionSort_outer Less (rev [x] @ zs) 0 (length [x] + length zs) (length [x])"
    by (simp add: sort_Slice_def insertionSort_func_def)
  also have "\<dots> = rev (foldl (\<lambda>acc x. insr Less x acc) [x] zs)"
    by (rule insertionSort_outer_eq)
  finally show ?thesis using Cons by simp
qed

lemma mset_insr [simp]: "mset (insr Less x r) = add_mset x (mset r)"
  by (induction r) simp_all

lemma set_insr [simp]: "set (insr Less x r) = insert x (set r)"
  by (induction r) auto

lemma mset_foldl_insr: "mset (foldl (\<lambda>acc x. insr Less x acc) r zs) = mset r + mset zs"
  by (induction zs arbitrary: r) simp_all

lemma mset_sort_Slice [simp]: "mset (sort_Slice Less xs) = mset xs"
  by (simp add: sort_Slice_eq mset_foldl_insr)

lemma length_sort_Slice [simp]: "length (sort_Slice Less xs) = length xs"
  using mset_sort_Slice [of Less xs] by (metis size_mset)

text \<open>Ascending: the prefix stays sorted, and an entry that is not smaller than the last stays.\<close>

lemma sorted_insr_asc:
  "sorted (rev (map key r)) \<Longrightarrow> sorted (rev (map key (insr (\<lambda>a b. key a < key b) x r)))"
  by (induction r) (auto simp: sorted_append)

lemma sorted_foldl_insr_asc:
  "sorted (rev (map key r)) \<Longrightarrow>
   sorted (rev (map key (foldl (\<lambda>acc x. insr (\<lambda>a b. key a < key b) x acc) r zs)))"
  by (induction zs arbitrary: r) (simp_all add: sorted_insr_asc)

lemma sorted_sort_Slice_asc: "sorted (map key (sort_Slice (\<lambda>a b. key a < key b) xs))"
  using sorted_foldl_insr_asc [of key "[]" xs] by (simp add: sort_Slice_eq rev_map)

lemma foldl_insr_asc_sorted:
  "sorted (map key (rev r @ zs)) \<Longrightarrow>
   rev (foldl (\<lambda>acc x. insr (\<lambda>a b. key a < key b) x acc) r zs) = rev r @ zs"
proof (induction zs arbitrary: r)
  case Nil
  show ?case by simp
next
  case (Cons x zs)
  have stay: "insr (\<lambda>a b. key a < key b) x r = x # r"
  proof (cases r)
    case Nil
    then show ?thesis by simp
  next
    case (Cons y r')
    with Cons.prems have "key y \<le> key x" by (simp add: sorted_append)
    then have "\<not> key x < key y" by simp
    with Cons show ?thesis by simp
  qed
  have "sorted (map key (rev (x # r) @ zs))" using Cons.prems by simp
  from Cons.IH [OF this] show ?case by (simp add: stay)
qed

lemma sort_Slice_asc_sorted:
  "sorted (map key xs) \<Longrightarrow> sort_Slice (\<lambda>a b. key a < key b) xs = xs"
  using foldl_insr_asc_sorted [of key "[]" xs] by (simp add: sort_Slice_eq)

text \<open>Descending: the comparison is the negation, and the prefix stays sorted downwards.\<close>

lemma sorted_insr_desc:
  "sorted (map key r) \<Longrightarrow> sorted (map key (insr (\<lambda>a b. \<not> key a < key b) x r))"
  by (induction r) auto

lemma sorted_foldl_insr_desc:
  "sorted (map key r) \<Longrightarrow>
   sorted (map key (foldl (\<lambda>acc x. insr (\<lambda>a b. \<not> key a < key b) x acc) r zs))"
  by (induction zs arbitrary: r) (simp_all add: sorted_insr_desc)

lemma sorted_sort_Slice_desc:
  "sorted (map key (rev (sort_Slice (\<lambda>a b. \<not> key a < key b) xs)))"
  using sorted_foldl_insr_desc [of key "[]" xs] by (simp add: sort_Slice_eq)

text \<open>With distinct keys a list has one arrangement sorted by key.\<close>

lemma sorted_by_key_unique:
  assumes "mset xs = mset ys" and "sorted (map key xs)" and "sorted (map key ys)"
    and "distinct (map key xs)"
  shows "xs = ys"
proof -
  have m: "mset (map key xs) = mset (map key ys)" using assms(1) by (metis mset_map)
  have "map key xs = map key ys"
    using properties_for_sort [OF m assms(2)] properties_for_sort [OF refl assms(3)] by simp
  moreover have "set ys = set xs" using assms(1) by (metis set_mset_mset)
  moreover have "inj_on key (set xs)" using assms(4) by (simp add: distinct_map)
  ultimately show ?thesis by (simp add: inj_on_map_eq_map)
qed

lemma sort_Slice_desc_rev_asc:
  fixes key :: "'a \<Rightarrow> 'k::linorder"
  assumes "distinct (map key xs)"
  shows "sort_Slice (\<lambda>a b. \<not> key a < key b) xs = rev (sort_Slice (\<lambda>a b. key a < key b) xs)"
proof -
  let ?A = "sort_Slice (\<lambda>a b. key a < key b) xs"
  let ?D = "sort_Slice (\<lambda>a b. \<not> key a < key b) xs"
  have "mset (map key ?A) = mset (map key xs)" by simp
  then have "distinct (map key ?A)" using assms by (metis distinct_count_atmost_1 set_mset_mset)
  moreover have "mset ?A = mset (rev ?D)" by simp
  ultimately have "?A = rev ?D"
    using sorted_sort_Slice_asc [of key xs] sorted_sort_Slice_desc [of key xs]
    by (intro sorted_by_key_unique [of ?A "rev ?D" key]) auto
  then show ?thesis by (metis rev_rev_ident)
qed

lemma sort_Slice_desc_idem:
  fixes key :: "'a \<Rightarrow> 'k::linorder"
  assumes "distinct (map key xs)"
  shows "sort_Slice (\<lambda>a b. \<not> key a < key b) (sort_Slice (\<lambda>a b. \<not> key a < key b) xs)
       = sort_Slice (\<lambda>a b. \<not> key a < key b) xs"
proof -
  let ?D = "sort_Slice (\<lambda>a b. \<not> key a < key b) xs"
  let ?E = "sort_Slice (\<lambda>a b. \<not> key a < key b) ?D"
  have "mset (map key ?D) = mset (map key xs)" by simp
  then have "distinct (map key ?D)" using assms by (metis distinct_count_atmost_1 set_mset_mset)
  then have d: "distinct (map key (rev ?D))" by (simp add: rev_map [symmetric])
  have "mset (rev ?D) = mset (rev ?E)" by simp
  then have "rev ?D = rev ?E"
    using sorted_sort_Slice_desc [of key xs] sorted_sort_Slice_desc [of key ?D] d
    by (intro sorted_by_key_unique [of "rev ?D" "rev ?E" key]) auto
  then show ?thesis by simp
qed

lemma sort_Slice_asc_idem:
  fixes key :: "'a \<Rightarrow> 'k::linorder"
  shows "sort_Slice (\<lambda>a b. key a < key b) (sort_Slice (\<lambda>a b. key a < key b) xs)
     = sort_Slice (\<lambda>a b. key a < key b) xs"
  by (rule sort_Slice_asc_sorted) (rule sorted_sort_Slice_asc)

subsection \<open>SortContainers\<close>

lemma unsigned_rat_less_iff:
  fixes a b :: uint64
  shows "(unsigned a :: rat) < unsigned b \<longleftrightarrow> a < b"
proof -
  have "(unsigned a :: rat) = of_nat (unat a)" and "(unsigned b :: rat) = of_nat (unat b)"
    by simp_all
  then have "(unsigned a :: rat) < unsigned b \<longleftrightarrow> unat a < unat b"
    by (simp only: of_nat_less_iff)
  then show ?thesis by (simp add: word_less_nat_alt)
qed

lemma signed_rat_less_iff:
  fixes a b :: int64
  shows "(signed a :: rat) < signed b \<longleftrightarrow> a <s b"
proof -
  have "(signed a :: rat) = of_int (sint a)" and "(signed b :: rat) = of_int (sint b)"
    by simp_all
  then have "(signed a :: rat) < signed b \<longleftrightarrow> sint a < sint b"
    by (simp only: of_int_less_iff)
  then show ?thesis by (simp add: word_sless_alt)
qed

lemma less_func_key:
  "less_func field True = (\<lambda>a b. sort_key field a < sort_key field b)"
  "less_func field False = (\<lambda>a b. \<not> sort_key field a < sort_key field b)"
  by (auto simp: less_func_def sort_key_def Let_def fun_eq_iff unsigned_rat_less_iff
      signed_rat_less_iff SortByName_def SortByCPU_def SortByMemory_def SortByNetIO_def
      SortByBlockIO_def SortByImageSize_def)

lemma no_ties_distinct: "no_ties field cs = distinct (map (sort_key field) cs)"
  by (auto simp: no_ties_def less_func_key distinct_conv_nth neq_iff)

lemma SortContainers_key:
  "SortContainers cs field True = sort_Slice (\<lambda>a b. sort_key field a < sort_key field b) cs"
  "SortContainers cs field False = sort_Slice (\<lambda>a b. \<not> sort_key field a < sort_key field b) cs"
  by (simp_all add: SortContainers_def less_func_key)

lemma length_SortContainers [simp]: "length (SortContainers cs field ascending) = length cs"
  by (simp add: SortContainers_def)

lemma mset_SortContainers [simp]: "mset (SortContainers cs field ascending) = mset cs"
  by (simp add: SortContainers_def)

text \<open>The expectations of \<^verbatim>\<open>TestSortContainers\<close> hold.\<close>

lemma TestSortContainers:
  "map Name (SortContainers test_containers SortByName True) = [''alpha'', ''beta'', ''gamma'']"
  "map Name (SortContainers test_containers SortByCPU False) = [''gamma'', ''alpha'', ''beta'']"
  "map Name (SortContainers test_containers SortByMemory False) = [''beta'', ''alpha'', ''gamma'']"
  by (simp_all add: SortContainers_def sort_Slice_eq test_containers_def ContainerStats_zero_def
      less_func_def SortByName_def SortByCPU_def SortByMemory_def)

text \<open>
  C7 as the claim states it: sorting twice is sorting once, for every list. Two containers
  at 0% CPU, sorted by CPU descending (the initial sort state): the comparison
  \<^verbatim>\<open>!less\<close> holds in both directions between them, the insertion sort swaps them, and
  the second sort swaps them back.
\<close>

theorem SortContainers_tie_not_idempotent:
  "SortContainers idle_pair SortByCPU False = rev idle_pair
   \<and> SortContainers (SortContainers idle_pair SortByCPU False) SortByCPU False = idle_pair
   \<and> SortContainers (SortContainers idle_pair SortByCPU False) SortByCPU False
       \<noteq> SortContainers idle_pair SortByCPU False"
  by (simp add: SortContainers_def sort_Slice_eq idle_pair_def snapshot_named_def
      ContainerStats_zero_def less_func_def SortByName_def SortByCPU_def)

text \<open>
  C7, amended. For every sort field: sorting ascending twice gives the same order as
  sorting once (shown for lists of at most 12 entries, where ties are decided by the
  insertion sort); on a list with no ties in the sort key, sorting twice with the same
  field and direction gives the same order as sorting once, and sorting descending gives
  exactly the reverse of sorting ascending.
\<close>

theorem SortContainers_idempotent_reverse:
  "(length cs \<le> maxInsertion \<longrightarrow>
      SortContainers (SortContainers cs field True) field True = SortContainers cs field True)
   \<and> (no_ties field cs \<longrightarrow>
      SortContainers (SortContainers cs field ascending) field ascending
        = SortContainers cs field ascending)
   \<and> (no_ties field cs \<longrightarrow>
      SortContainers cs field False = rev (SortContainers cs field True))"
proof (intro conjI impI)
  show "SortContainers (SortContainers cs field True) field True = SortContainers cs field True"
    by (simp only: SortContainers_key sort_Slice_asc_idem)
next
  assume "no_ties field cs"
  then have d: "distinct (map (sort_key field) cs)" by (simp add: no_ties_distinct)
  show "SortContainers (SortContainers cs field ascending) field ascending
      = SortContainers cs field ascending"
  proof (cases ascending)
    case True
    then show ?thesis by (simp only: SortContainers_key sort_Slice_asc_idem)
  next
    case False
    then show ?thesis using sort_Slice_desc_idem [OF d] by (simp only: SortContainers_key)
  qed
next
  assume "no_ties field cs"
  then have d: "distinct (map (sort_key field) cs)" by (simp add: no_ties_distinct)
  show "SortContainers cs field False = rev (SortContainers cs field True)"
    using sort_Slice_desc_rev_asc [OF d] by (simp only: SortContainers_key)
qed

theorem SortContainers_idempotent_reverse_witness:
  "length test_containers \<le> maxInsertion \<and> no_ties SortByCPU test_containers
   \<and> SortContainers (SortContainers test_containers SortByCPU True) SortByCPU True
       = SortContainers test_containers SortByCPU True
   \<and> SortContainers (SortContainers test_containers SortByCPU False) SortByCPU False
       = SortContainers test_containers SortByCPU False
   \<and> SortContainers test_containers SortByCPU False
       = rev (SortContainers test_containers SortByCPU True)"
proof -
  have h1: "length test_containers \<le> maxInsertion"
    by (simp add: test_containers_def maxInsertion_def)
  have h2: "no_ties SortByCPU test_containers"
    by (simp add: no_ties_distinct test_containers_def sort_key_def ContainerStats_zero_def
        SortByCPU_def)
  from SortContainers_idempotent_reverse [of test_containers SortByCPU False] h1 h2
  show ?thesis by blast
qed

text \<open>
  C8 as the claim states it: with a field outside the six, both directions sort as Name
  ascending. With the direction flag off the source still returns \<^verbatim>\<open>!less\<close>: field 7,
  descending, puts \<^verbatim>\<open>b\<close> before \<^verbatim>\<open>a\<close>.
\<close>

theorem SortContainers_unknown_field_descending:
  "SortContainers idle_pair 7 False = rev idle_pair
   \<and> SortContainers idle_pair SortByName True = idle_pair
   \<and> SortContainers idle_pair 7 False \<noteq> SortContainers idle_pair SortByName True"
  by (simp add: SortContainers_def sort_Slice_eq idle_pair_def snapshot_named_def
      ContainerStats_zero_def less_func_def SortByName_def SortByCPU_def SortByMemory_def
      SortByNetIO_def SortByBlockIO_def SortByImageSize_def)

text \<open>
  C8, amended. For every snapshot list and every direction flag, sorting with a field
  value outside the six defined sort fields behaves as sorting by Name with the same
  direction flag.
\<close>

theorem SortContainers_unknown_field:
  assumes "field \<notin> {SortByName, SortByCPU, SortByMemory, SortByNetIO, SortByBlockIO,
                      SortByImageSize}"
  shows "SortContainers cs field ascending = SortContainers cs SortByName ascending"
proof -
  have "less_func field ascending = less_func SortByName ascending"
    using assms by (auto simp: less_func_def fun_eq_iff)
  then show ?thesis by (simp add: SortContainers_def)
qed

theorem SortContainers_unknown_field_witness:
  "(7 :: SortField) \<notin> {SortByName, SortByCPU, SortByMemory, SortByNetIO, SortByBlockIO,
                          SortByImageSize}
   \<and> SortContainers test_containers 7 False = SortContainers test_containers SortByName False"
proof -
  have h: "(7 :: SortField) \<notin> {SortByName, SortByCPU, SortByMemory, SortByNetIO,
      SortByBlockIO, SortByImageSize}"
    by (simp add: SortByName_def SortByCPU_def SortByMemory_def SortByNetIO_def
        SortByBlockIO_def SortByImageSize_def)
  from SortContainers_unknown_field [OF h, of test_containers False] h show ?thesis by simp
qed

subsection \<open>The collect cycle\<close>

lemma mset_remove_nth:
  "i < length ys \<Longrightarrow> add_mset (ys ! i) (mset (take i ys @ drop (Suc i) ys)) = mset ys"
proof -
  assume "i < length ys"
  then have "ys = take i ys @ ys ! i # drop (Suc i) ys" by (rule id_take_nth_drop)
  then have "mset ys = mset (take i ys @ ys ! i # drop (Suc i) ys)" by simp
  then show ?thesis by simp
qed

lemma mset_deliver [simp]: "mset (deliver sched xs) = mset xs"
proof (induction sched xs rule: deliver.induct)
  case (3 k sched x xs)
  let ?i = "k mod length (x # xs)"
  have i: "?i < length (x # xs)" by simp
  have "mset (deliver (k # sched) (x # xs))
      = add_mset ((x # xs) ! ?i) (mset (take ?i (x # xs) @ drop (Suc ?i) (x # xs)))"
    using "3.IH" [OF refl] by (simp add: Let_def del: take_Suc_Cons drop_Suc_Cons nth_Cons_Suc)
  also have "\<dots> = mset (x # xs)" using i by (rule mset_remove_nth)
  finally show ?case .
qed simp_all

lemma length_deliver [simp]: "length (deliver sched xs) = length xs"
  using mset_deliver [of sched xs] by (metis size_mset)

lemma set_deliver [simp]: "set (deliver sched xs) = set xs"
  using mset_deliver [of sched xs] by (metis set_mset_mset)

text \<open>Every order of arrival is the choice of some schedule.\<close>

lemma deliver_any_order: "mset ys = mset xs \<Longrightarrow> \<exists>sched. deliver sched xs = ys"
proof (induction ys arbitrary: xs)
  case Nil
  then show ?case by simp
next
  case (Cons y ys)
  then have "y \<in> set xs" by (metis list.set_intros(1) set_mset_mset)
  then obtain i where i: "i < length xs" "xs ! i = y" by (auto simp: in_set_conv_nth)
  let ?rest = "take i xs @ drop (Suc i) xs"
  have "add_mset y (mset ?rest) = mset xs" using mset_remove_nth [OF i(1)] i(2) by simp
  with Cons.prems have "add_mset y (mset ys) = add_mset y (mset ?rest)" by simp
  then have "mset ys = mset ?rest" by (simp only: add_mset_add_mset_same_iff)
  from Cons.IH [OF this] obtain sched where s: "deliver sched ?rest = ys" ..
  from i(1) obtain x xs' where xs: "xs = x # xs'" by (cases xs) auto
  have "deliver (i # sched) xs = y # ys"
    using i s unfolding xs by (simp add: Let_def del: take_Suc_Cons drop_Suc_Cons nth_Cons_Suc)
  then show ?case ..
qed









text \<open>
  C9. The claim: whenever the list call succeeds, a snapshot set with exactly one entry
  per listed container is returned. \<^verbatim>\<open>getContainerStats\<close> indeed returns no error on any
  path, but it has two paths on which it does not return: a listed ID of fewer than 12
  characters panics at \<^verbatim>\<open>cont.ID[:12]\<close>, and an inspect answer without
  \<^verbatim>\<open>HostConfig\<close> panics at \<^verbatim>\<open>containerInfo.HostConfig.NanoCPUs\<close>. Either ends the
  process with that panic, and no set with an entry for that container is delivered.
\<close>

theorem GetContainerStats_malformed_answer_panics:
  "ContainerList client_short_id False = Inr [cont_short]
   \<and> GetContainerStats client_short_id [] False = Panic SliceBoundsOutOfRange
   \<and> ContainerList client_no_hostconfig False = Inr [cont_web]
   \<and> length (Summary_ID cont_web) = 16
   \<and> GetContainerStats client_no_hostconfig [] False = Panic NilPointerDereference"
proof -
  have "getContainerStats client_short_id cont_short = Panic SliceBoundsOutOfRange"
    by (simp add: getContainerStats_Panic_iff cont_short_def)
  moreover have "getContainerStats client_no_hostconfig cont_web = Panic NilPointerDereference"
    by (simp add: getContainerStats_Panic_iff cont_web_def client_no_hostconfig_def)
  moreover have "ContainerList client_short_id False = Inr [cont_short]"
    and "ContainerList client_no_hostconfig False = Inr [cont_web]"
    by (simp_all add: client_short_id_def client_no_hostconfig_def)
  moreover have "length (Summary_ID cont_web) = 16" by (simp add: cont_web_def)
  ultimately show ?thesis by (simp add: GetContainerStats_def)
qed



end
